theory Spec2Isabelle
  imports Main
begin

section \<open>Data model (types.ts)\<close>

text \<open>
  The values that travel through the connector (event payloads, frames, the session
  identifier). What \<open>JSON.parse\<close> yields is built from the first six constructors; an
  object is a list of key/value pairs with distinct keys. \<open>JUndefined\<close> is what reading a
  property that is not there yields. \<open>JNum\<close> is a number with an integer value (close
  codes, attempt counts and delays are such numbers); \<open>JNaN\<close>, \<open>JInfinity\<close> and
  \<open>JNegInfinity\<close> are the values that the arithmetic of the language gives when a
  result is undefined or beyond the largest finite number.
\<close>

datatype json =
    JNull
  | JBool bool
  | JNum int
  | JStr string
  | JArr "json list"
  | JObj "(string \<times> json) list"
  | JUndefined
  | JNaN
  | JInfinity
  | JNegInfinity

datatype ConnectionState = connecting | connected | disconnected | reconnecting

text \<open>\<open>KalzeOptions\<close> as the application passes it: the optional fields may be absent.\<close>

record KalzeOptions =
  opt_key :: string
  opt_subdomain :: string
  opt_wsUrl :: "string option"
  opt_autoReconnect :: "bool option"
  opt_maxReconnectAttempts :: "int option"
  opt_reconnectDelay :: "int option"
  opt_debug :: "bool option"

text \<open>
  \<open>Required<KalzeOptions>\<close>: the options after the constructor filled in the defaults.
  The two numbers of the configuration are modelled for integer values.
\<close>

record RequiredOptions =
  key :: string
  subdomain :: string
  wsUrl :: string
  autoReconnect :: bool
  maxReconnectAttempts :: int
  reconnectDelay :: int
  debug :: bool

text \<open>
  \<open>ServerMessage\<close>: the envelope \<open>JSON.parse\<close> yields for an incoming frame. A frame
  whose JSON is not such an envelope is outside the declared type and not modelled.
\<close>

record ServerMessage =
  event :: string
  data :: json

section \<open>The host environment\<close>

text \<open>
  The connector runs against three host facilities: the duplex socket (\<open>WebSocket\<close>),
  the timers (\<open>setTimeout\<close>, \<open>setInterval\<close>) and the application's callbacks.
  A socket is identified by the order of its construction; a timer by the identifier the
  host returned (identifiers are positive, hence truthy in the source's \<open>if\<close> tests).
\<close>

datatype ReadyState = CONNECTING | OPEN | CLOSING | CLOSED

text \<open>
  A registered callback is either a function of the application, known by its identity,
  or the wrapper closure that \<open>once\<close> built: the wrapper has an identity of its own and
  remembers its event name and the application function it wraps.
\<close>

datatype callback = User nat | OnceWrapper nat string nat

text \<open>
  What the connector does to the outside, in order. \<open>Emitted\<close> records a call of
  \<open>emit\<close>; \<open>Called\<close> records that an application function ran with a payload.
  Diagnostic logging (\<open>log\<close>, active in debug mode only) is not recorded.
\<close>

datatype effect =
    Emitted string json
  | Called nat json
  | NewWebSocket nat string
  | NewWebSocketThrew string
  | WsSend nat json
  | WsClose nat nat string
  | SetTimeout nat json
  | ClearTimeout nat
  | SetInterval nat int
  | ClearInterval nat

section \<open>The connector (client.ts, class KalzeChannel)\<close>

record KalzeChannel =
  name :: string
  options :: RequiredOptions
  ws :: "nat option"
  socketId :: json
  state :: ConnectionState
  eventListeners :: "string \<Rightarrow> nat option"
  reconnectAttempts :: nat
  reconnectTimeout :: "nat option"
  heartbeatInterval :: "nat option"

text \<open>
  The connector together with the host objects it refers to. \<open>eventListeners\<close> maps an
  event name to a \<open>Set\<close> object; \<open>setObjects\<close> holds the \<open>Set\<close> objects by address.
  A \<open>Set\<close> is its list of entries in insertion order, where a deleted entry leaves an
  empty slot (\<open>None\<close>), as in the language definition: an iteration in progress walks
  the slots by position and sees deletions and additions made meanwhile.
  \<open>sockets\<close> are the ready states of all sockets constructed so far, \<open>timeouts\<close> the
  one-shot timers still pending, \<open>intervals\<close> the periodic timers still active.
\<close>

record runtime = KalzeChannel +
  setObjects :: "nat \<Rightarrow> callback option list"
  nextSet :: nat
  nextWrapper :: nat
  sockets :: "ReadyState list"
  timeouts :: "nat list"
  intervals :: "nat list"
  nextTimer :: nat
  trace :: "effect list"

definition DEFAULT_WS_URL :: string where
  "DEFAULT_WS_URL = ''wss://ws.websocket.cl''"

definition perform :: "effect \<Rightarrow> runtime \<Rightarrow> runtime" where
  "perform x w = w\<lparr>trace := trace w @ [x]\<rparr>"

subsection \<open>Subscriptions: off, on, once\<close>

definition set_delete :: "callback \<Rightarrow> callback option list \<Rightarrow> callback option list" where
  "set_delete cb es = map (\<lambda>x. if x = Some cb then None else x) es"

definition set_add :: "callback \<Rightarrow> callback option list \<Rightarrow> callback option list" where
  "set_add cb es = (if Some cb \<in> set es then es else es @ [Some cb])"

definition set_size :: "callback option list \<Rightarrow> nat" where
  "set_size es = length (filter (\<lambda>x. x \<noteq> None) es)"

text \<open>\<open>off(event, callback?)\<close>: without a callback the whole entry of the event goes.\<close>

definition off :: "string \<Rightarrow> callback option \<Rightarrow> runtime \<Rightarrow> runtime" where
  "off ev cbo w =
     (case cbo of
        None \<Rightarrow> w\<lparr>eventListeners := (eventListeners w)(ev := None)\<rparr>
      | Some cb \<Rightarrow>
          (case eventListeners w ev of
             None \<Rightarrow> w
           | Some a \<Rightarrow>
               (let w1 = w\<lparr>setObjects := (setObjects w)(a := set_delete cb (setObjects w a))\<rparr>
                in if set_size (setObjects w1 a) = 0
                   then w1\<lparr>eventListeners := (eventListeners w1)(ev := None)\<rparr>
                   else w1)))"

text \<open>\<open>on(event, callback)\<close>; the closure it returns is \<open>off\<close> with the same pair.\<close>

definition on :: "string \<Rightarrow> callback \<Rightarrow> runtime \<Rightarrow> runtime" where
  "on ev cb w =
     (let w1 = (if eventListeners w ev = None
                then w\<lparr>eventListeners := (eventListeners w)(ev \<mapsto> nextSet w),
                       setObjects := (setObjects w)(nextSet w := []),
                       nextSet := Suc (nextSet w)\<rparr>
                else w)
      in case eventListeners w1 ev of
           None \<Rightarrow> w1
         | Some a \<Rightarrow> w1\<lparr>setObjects := (setObjects w1)(a := set_add cb (setObjects w1 a))\<rparr>)"

text \<open>\<open>once(event, callback)\<close> registers a fresh wrapper around the application function.\<close>

definition once :: "string \<Rightarrow> nat \<Rightarrow> runtime \<Rightarrow> runtime" where
  "once ev f w =
     on ev (OnceWrapper (nextWrapper w) ev f) (w\<lparr>nextWrapper := Suc (nextWrapper w)\<rparr>)"

subsection \<open>Dispatch: emit\<close>

text \<open>
  Running one registered callback. An application function is opaque: the model records
  that it ran and with which payload, and takes it not to call the connector's methods
  while it runs. Whether it returns or throws makes no difference to the connector, since
  \<open>emit\<close> catches what it throws. The wrapper of \<open>once\<close> first unsubscribes itself
  and then calls the function it wraps.
\<close>

fun invoke :: "callback \<Rightarrow> json \<Rightarrow> runtime \<Rightarrow> runtime" where
  "invoke (User f) payload w = perform (Called f payload) w"
| "invoke (OnceWrapper k ev f) payload w =
     perform (Called f payload) (off ev (Some (OnceWrapper k ev f)) w)"

lemma length_set_delete: "length (set_delete cb es) = length es"
  by (simp add: set_delete_def)

lemma length_setObjects_off: "length (setObjects (off ev cbo w) a) = length (setObjects w a)"
  by (simp add: off_def Let_def length_set_delete split: option.splits)

lemma length_setObjects_invoke:
  "length (setObjects (invoke cb payload w) a) = length (setObjects w a)"
  by (cases cb) (simp_all add: perform_def length_setObjects_off)

text \<open>
  \<open>for (const callback of listeners)\<close> over the \<open>Set\<close> at address \<open>a\<close>, from slot
  \<open>i\<close> on: the slots are read from the current store at every step.
\<close>

function forEach :: "nat \<Rightarrow> json \<Rightarrow> nat \<Rightarrow> runtime \<Rightarrow> runtime" where
  "forEach a payload i w =
     (if i < length (setObjects w a)
      then (case setObjects w a ! i of
              None \<Rightarrow> forEach a payload (Suc i) w
            | Some cb \<Rightarrow> forEach a payload (Suc i) (invoke cb payload w))
      else w)"
  by pat_completeness auto
termination
  by (relation "measure (\<lambda>(a, payload, i, w). length (setObjects w a) - i)")
     (auto simp: length_setObjects_invoke)

declare forEach.simps [simp del]

definition emit :: "string \<Rightarrow> json \<Rightarrow> runtime \<Rightarrow> runtime" where
  "emit ev d w =
     (let w0 = perform (Emitted ev d) w;
          w1 = (case eventListeners w0 ev of
                  None \<Rightarrow> w0
                | Some a \<Rightarrow> forEach a d 0 w0)
      in case eventListeners w1 ''*'' of
           None \<Rightarrow> w1
         | Some a \<Rightarrow> forEach a (JObj [(''event'', JStr ev), (''data'', d)]) 0 w1)"

subsection \<open>Private helpers\<close>

text \<open>\<open>/^wpk_live_[A-Za-z0-9_-]{43}$/.test(key)\<close>\<close>

definition url_safe :: "char \<Rightarrow> bool" where
  "url_safe c =
     (c \<in> set ''ABCDEFGHIJKLMNOPQRSTUVWXYZabcdefghijklmnopqrstuvwxyz0123456789_-'')"

definition isValidPublicKey :: "string \<Rightarrow> bool" where
  "isValidPublicKey k =
     (take 9 k = ''wpk_live_'' \<and> length (drop 9 k) = 43 \<and> list_all url_safe (drop 9 k))"

text \<open>Decimal digits of a number, as a template literal prints a close code.\<close>

function string_of_nat :: "nat \<Rightarrow> string" where
  "string_of_nat n =
     (if n < 10 then [''0123456789'' ! n]
      else string_of_nat (n div 10) @ [''0123456789'' ! (n mod 10)])"
  by pat_completeness auto
termination
  by (relation "measure id") auto

declare string_of_nat.simps [simp del]

text \<open>
  \<open>getCloseReasonMessage(code, reason)\<close>; \<open>None\<close> is the source's \<open>null\<close>. A close
  code is the unsigned number of the close event.
\<close>

definition getCloseReasonMessage :: "nat \<Rightarrow> string \<Rightarrow> string option" where
  "getCloseReasonMessage code reason =
     (if reason \<noteq> [] then Some reason
      else if code = 4401 then Some ''Missing API key (?key=...)''
      else if code = 4403 then Some ''Invalid API key''
      else if code = 4408 then Some ''Connection limit exceeded''
      else if code = 4000 then Some ''Invalid path. Expected /c/:subdomain/:channel''
      else if code \<ge> 4000 then Some (''Connection rejected ('' @ string_of_nat code @ '')'')
      else None)"

definition state_name :: "ConnectionState \<Rightarrow> string" where
  "state_name s =
     (case s of
        connecting \<Rightarrow> ''connecting''
      | connected \<Rightarrow> ''connected''
      | disconnected \<Rightarrow> ''disconnected''
      | reconnecting \<Rightarrow> ''reconnecting'')"

definition readyStateOf :: "runtime \<Rightarrow> nat \<Rightarrow> ReadyState option" where
  "readyStateOf w s = (if s < length (sockets w) then Some (sockets w ! s) else None)"

subsection \<open>Heartbeat\<close>

definition stopHeartbeat :: "runtime \<Rightarrow> runtime" where
  "stopHeartbeat w =
     (case heartbeatInterval w of
        None \<Rightarrow> w
      | Some h \<Rightarrow>
          (perform (ClearInterval h) w)
            \<lparr>heartbeatInterval := None, intervals := removeAll h (intervals w)\<rparr>)"

definition startHeartbeat :: "runtime \<Rightarrow> runtime" where
  "startHeartbeat w =
     (let w1 = stopHeartbeat w; h = nextTimer w1
      in (perform (SetInterval h 25000) w1)
           \<lparr>heartbeatInterval := Some h, intervals := intervals w1 @ [h],
            nextTimer := Suc h\<rparr>)"

text \<open>The body of the periodic callback that \<open>startHeartbeat\<close> installs.\<close>

definition heartbeat :: "runtime \<Rightarrow> runtime" where
  "heartbeat w =
     (case ws w of
        None \<Rightarrow> w
      | Some s \<Rightarrow>
          if readyStateOf w s = Some OPEN
          then perform (WsSend s (JObj [(''event'', JStr ''ping'')])) w
          else w)"

subsection \<open>Reconnect scheduling and connect\<close>

text \<open>
  \<open>d * Math.pow(2, k)\<close> for an integer-valued number \<open>d\<close>, in the double-precision
  arithmetic of the language. \<open>Math.pow(2, k)\<close> is the exact power up to \<open>k = 1023\<close>
  and \<open>Infinity\<close> beyond. Multiplying by a power of two only moves the exponent, so the
  product is exact as long as it stays below \<open>2^1024\<close> in magnitude; beyond that it is
  the infinity of its sign, and zero times \<open>Infinity\<close> is \<open>NaN\<close>.
\<close>

definition times_pow2 :: "int \<Rightarrow> nat \<Rightarrow> json" where
  "times_pow2 d k =
     (if d = 0 then (if k < 1024 then JNum 0 else JNaN)
      else if \<bar>d\<bar> * 2 ^ k < 2 ^ 1024 then JNum (d * 2 ^ k)
      else if 0 < d then JInfinity
      else JNegInfinity)"

text \<open>
  \<open>scheduleReconnect()\<close>. The deferred call of \<open>connect\<close> is the pending timer that
  the host fires later. The attempt counter is a natural number.
\<close>

definition scheduleReconnect :: "runtime \<Rightarrow> runtime" where
  "scheduleReconnect w =
     (if \<not> autoReconnect (options w) then w
      else if int (reconnectAttempts w) \<ge> maxReconnectAttempts (options w)
      then emit ''reconnect:failed'' (JObj [(''attempts'', JNum (int (reconnectAttempts w)))]) w
      else
        (let w1 = w\<lparr>reconnectAttempts := Suc (reconnectAttempts w)\<rparr>;
             delay = times_pow2 (reconnectDelay (options w1)) (reconnectAttempts w1 - 1);
             w2 = emit ''reconnecting''
                    (JObj [(''attempt'', JNum (int (reconnectAttempts w1))),
                           (''delay'', delay)]) w1;
             t = nextTimer w2
         in (perform (SetTimeout t delay) w2)
              \<lparr>reconnectTimeout := Some t, timeouts := timeouts w2 @ [t],
               nextTimer := Suc t\<rparr>))"

definition connect_url :: "runtime \<Rightarrow> string" where
  "connect_url w =
     wsUrl (options w) @ ''/c/'' @ subdomain (options w) @ ''/'' @ name w @
       ''?key='' @ key (options w)"

text \<open>
  \<open>connect()\<close>. Whether \<open>new WebSocket(url)\<close> throws is the host's decision and is the
  first argument. The four handlers that \<open>connect\<close> installs on the new socket are never
  removed; they are the host events of the last section.
\<close>

definition connect :: "bool \<Rightarrow> runtime \<Rightarrow> runtime" where
  "connect throws w =
     (if state w = connecting \<or> state w = connected then w
      else if \<not> isValidPublicKey (key (options w))
      then emit ''error''
             (JObj [(''code'', JNum 4403),
                    (''message'', JStr ''Invalid public API key format. Expected wpk_live_*'')]) w
      else
        (let w1 = w\<lparr>state := (if reconnectAttempts w > 0 then reconnecting else connecting)\<rparr>;
             w2 = emit ''state:change'' (JObj [(''state'', JStr (state_name (state w1)))]) w1
         in if throws
            then scheduleReconnect
                   (emit ''error'' (JObj [(''message'', JStr ''Failed to connect'')])
                      (perform (NewWebSocketThrew (connect_url w2)) w2))
            else (perform (NewWebSocket (length (sockets w2)) (connect_url w2)) w2)
                   \<lparr>ws := Some (length (sockets w2)),
                    sockets := sockets w2 @ [CONNECTING]\<rparr>))"

subsection \<open>Socket callbacks\<close>

text \<open>
  The payload has the declared type \<open>ConnectionEstablished\<close>, and carries a session
  identifier, when it is an object whose \<open>socketId\<close> is a string.
\<close>

definition socketId_of :: "json \<Rightarrow> string option" where
  "socketId_of d =
     (case d of
        JObj kvs \<Rightarrow> (case map_of kvs ''socketId'' of Some (JStr s) \<Rightarrow> Some s | _ \<Rightarrow> None)
      | _ \<Rightarrow> None)"

text \<open>
  The expression \<open>data.socketId\<close>. On \<open>null\<close> and \<open>undefined\<close> the access throws
  (\<open>None\<close>). On an object it is the value of the property, \<open>undefined\<close> when there is
  none; every other value has no such property.
\<close>

definition data_socketId :: "json \<Rightarrow> json option" where
  "data_socketId d =
     (case d of
        JNull \<Rightarrow> None
      | JUndefined \<Rightarrow> None
      | JObj kvs \<Rightarrow> (case map_of kvs ''socketId'' of None \<Rightarrow> Some JUndefined | Some v \<Rightarrow> Some v)
      | _ \<Rightarrow> Some JUndefined)"

text \<open>
  \<open>handleConnectionEstablished(data)\<close>. The cast in \<open>handleMessage\<close> is unchecked:
  whatever the payload is, its \<open>socketId\<close> is stored and the connector becomes
  connected. Only when the access throws does nothing happen: it is the first statement,
  and the exception ends in the \<open>catch\<close> of \<open>handleMessage\<close>, the only caller.
\<close>

definition handleConnectionEstablished :: "json \<Rightarrow> runtime \<Rightarrow> runtime" where
  "handleConnectionEstablished d w =
     (case data_socketId d of
        None \<Rightarrow> w
      | Some v \<Rightarrow>
          (let w1 = w\<lparr>socketId := v, state := connected, reconnectAttempts := 0\<rparr>;
               w2 = startHeartbeat w1;
               w3 = emit ''connected'' d w2
           in emit ''state:change'' (JObj [(''state'', JStr (state_name (state w3)))]) w3))"

text \<open>
  \<open>handleMessage(data)\<close>: the argument is what \<open>JSON.parse(data)\<close> yields, \<open>None\<close>
  when it throws.
\<close>

definition handleMessage :: "ServerMessage option \<Rightarrow> runtime \<Rightarrow> runtime" where
  "handleMessage parsed w =
     (case parsed of
        None \<Rightarrow> w
      | Some m \<Rightarrow>
          if event m = ''connection:established'' then handleConnectionEstablished (data m) w
          else if event m = ''pong'' then w
          else emit (event m) (data m) w)"

definition terminal_code :: "nat \<Rightarrow> bool" where
  "terminal_code code =
     (code = 4000 \<or> code = 4001 \<or> code = 4002 \<or> code = 4401 \<or> code = 4403 \<or>
      code = 4408 \<or> code = 4999)"

definition handleClose :: "nat \<Rightarrow> string \<Rightarrow> runtime \<Rightarrow> runtime" where
  "handleClose code reason w =
     (let w1 = (case getCloseReasonMessage code reason of
                  None \<Rightarrow> w
                | Some m \<Rightarrow>
                    if m = [] then w
                    else emit ''error''
                           (JObj [(''code'', JNum (int code)), (''message'', JStr m)]) w);
          w2 = (stopHeartbeat w1)\<lparr>ws := None, socketId := JNull, state := disconnected\<rparr>;
          w3 = emit ''disconnected''
                 (JObj [(''code'', JNum (int code)), (''reason'', JStr reason)]) w2;
          w4 = emit ''state:change'' (JObj [(''state'', JStr (state_name (state w3)))]) w3
      in if terminal_code code then w4 else scheduleReconnect w4)"

subsection \<open>Public operations\<close>

definition trigger :: "json \<Rightarrow> runtime \<Rightarrow> runtime" where
  "trigger d w =
     (case ws w of
        None \<Rightarrow> w
      | Some s \<Rightarrow>
          if readyStateOf w s = Some OPEN
          then perform (WsSend s (JObj [(''event'', JStr ''client:event''), (''data'', d)])) w
          else w)"

text \<open>\<open>ws.close(code, reason)\<close> of the host: an open or opening socket starts closing.\<close>

definition ws_close :: "nat \<Rightarrow> nat \<Rightarrow> string \<Rightarrow> runtime \<Rightarrow> runtime" where
  "ws_close s code reason w =
     (perform (WsClose s code reason) w)
       \<lparr>sockets := (if readyStateOf w s = Some CONNECTING \<or> readyStateOf w s = Some OPEN
                    then (sockets w)[s := CLOSING]
                    else sockets w)\<rparr>"

definition disconnect :: "runtime \<Rightarrow> runtime" where
  "disconnect w =
     (let w1 = (case reconnectTimeout w of
                  None \<Rightarrow> w
                | Some t \<Rightarrow>
                    (perform (ClearTimeout t) w)
                      \<lparr>reconnectTimeout := None, timeouts := removeAll t (timeouts w)\<rparr>);
          w2 = stopHeartbeat w1;
          w3 = (case ws w2 of
                  None \<Rightarrow> w2
                | Some s \<Rightarrow> (ws_close s 1000 ''Client disconnect'' w2)\<lparr>ws := None\<rparr>)
      in w3\<lparr>socketId := JNull, state := disconnected, eventListeners := (\<lambda>_. None)\<rparr>)"

definition isConnected :: "runtime \<Rightarrow> bool" where
  "isConnected w = (state w = connected)"

text \<open>The constructor: the fields' initial values, the defaults of the options, \<open>connect\<close>.\<close>

definition required :: "KalzeOptions \<Rightarrow> RequiredOptions" where
  "required opts =
     \<lparr>key = opt_key opts,
      subdomain = opt_subdomain opts,
      wsUrl = (case opt_wsUrl opts of
                 None \<Rightarrow> DEFAULT_WS_URL
               | Some u \<Rightarrow> if u = [] then DEFAULT_WS_URL else u),
      autoReconnect = (case opt_autoReconnect opts of None \<Rightarrow> True | Some b \<Rightarrow> b),
      maxReconnectAttempts = (case opt_maxReconnectAttempts opts of None \<Rightarrow> 10 | Some n \<Rightarrow> n),
      reconnectDelay = (case opt_reconnectDelay opts of None \<Rightarrow> 1000 | Some n \<Rightarrow> n),
      debug = (case opt_debug opts of None \<Rightarrow> False | Some b \<Rightarrow> b)\<rparr>"

definition fresh :: "string \<Rightarrow> KalzeOptions \<Rightarrow> runtime" where
  "fresh channelName opts =
     \<lparr>name = channelName, options = required opts, ws = None, socketId = JNull,
      state = disconnected, eventListeners = (\<lambda>_. None), reconnectAttempts = 0,
      reconnectTimeout = None, heartbeatInterval = None,
      setObjects = (\<lambda>_. []), nextSet = 0, nextWrapper = 0, sockets = [],
      timeouts = [], intervals = [], nextTimer = 1, trace = []\<rparr>"

definition KalzeChannel_new :: "string \<Rightarrow> KalzeOptions \<Rightarrow> bool \<Rightarrow> runtime" where
  "KalzeChannel_new channelName opts throws = connect throws (fresh channelName opts)"

section \<open>The built module (dist/client.js)\<close>

text \<open>
  The repository also carries a built module. It differs from the TypeScript source in
  two methods: its \<open>connect\<close> does not validate the key, and its \<open>handleClose\<close>
  emits no error event and refrains from reconnecting on fewer close codes. All other
  methods are the same text.
\<close>

definition connect_dist :: "bool \<Rightarrow> runtime \<Rightarrow> runtime" where
  "connect_dist throws w =
     (if state w = connecting \<or> state w = connected then w
      else
        (let w1 = w\<lparr>state := (if reconnectAttempts w > 0 then reconnecting else connecting)\<rparr>;
             w2 = emit ''state:change'' (JObj [(''state'', JStr (state_name (state w1)))]) w1
         in if throws
            then scheduleReconnect
                   (emit ''error'' (JObj [(''message'', JStr ''Failed to connect'')])
                      (perform (NewWebSocketThrew (connect_url w2)) w2))
            else (perform (NewWebSocket (length (sockets w2)) (connect_url w2)) w2)
                   \<lparr>ws := Some (length (sockets w2)),
                    sockets := sockets w2 @ [CONNECTING]\<rparr>))"

definition handleClose_dist :: "nat \<Rightarrow> string \<Rightarrow> runtime \<Rightarrow> runtime" where
  "handleClose_dist code reason w =
     (let w2 = (stopHeartbeat w)\<lparr>ws := None, socketId := JNull, state := disconnected\<rparr>;
          w3 = emit ''disconnected''
                 (JObj [(''code'', JNum (int code)), (''reason'', JStr reason)]) w2;
          w4 = emit ''state:change'' (JObj [(''state'', JStr (state_name (state w3)))]) w3
      in if code = 4000 \<or> code = 4001 \<or> code = 4002 \<or> code = 4999 then w4
         else scheduleReconnect w4)"

definition KalzeChannel_new_dist :: "string \<Rightarrow> KalzeOptions \<Rightarrow> bool \<Rightarrow> runtime" where
  "KalzeChannel_new_dist channelName opts throws = connect_dist throws (fresh channelName opts)"

section \<open>Host events\<close>

text \<open>
  Everything that can happen to a connector once it is constructed: the host delivers an
  event of a socket to the handler that \<open>connect\<close> installed on it, fires a timer, or
  the application calls a public method. \<open>connect\<close> is private: the application cannot
  call it. A socket delivers \<open>open\<close> once while it is connecting, messages while it is
  open, and its \<open>close\<close> event once, after which it is closed for good. A timer that
  fires runs \<open>connect\<close>; the flag says whether the socket constructor throws then.
\<close>

datatype host_event =
    SocketOpen nat
  | SocketMessage nat "ServerMessage option"
  | SocketError nat
  | SocketClose nat nat string
  | TimeoutFires nat bool
  | IntervalFires nat
  | CallOn string nat
  | CallOnce string nat
  | CallOff string "callback option"
  | CallTrigger json
  | CallDisconnect

fun step :: "host_event \<Rightarrow> runtime \<Rightarrow> runtime" where
  "step (SocketOpen s) w =
     (if readyStateOf w s = Some CONNECTING then w\<lparr>sockets := (sockets w)[s := OPEN]\<rparr> else w)"
| "step (SocketMessage s parsed) w =
     (if readyStateOf w s = Some OPEN then handleMessage parsed w else w)"
| "step (SocketError s) w =
     (if readyStateOf w s \<noteq> None \<and> readyStateOf w s \<noteq> Some CLOSED
      then emit ''error'' (JObj [(''message'', JStr ''WebSocket error'')]) w
      else w)"
| "step (SocketClose s code reason) w =
     (if readyStateOf w s \<noteq> None \<and> readyStateOf w s \<noteq> Some CLOSED
      then handleClose code reason (w\<lparr>sockets := (sockets w)[s := CLOSED]\<rparr>)
      else w)"
| "step (TimeoutFires t throws) w =
     (if t \<in> set (timeouts w)
      then connect throws (w\<lparr>timeouts := removeAll t (timeouts w)\<rparr>)
      else w)"
| "step (IntervalFires h) w = (if h \<in> set (intervals w) then heartbeat w else w)"
| "step (CallOn ev f) w = on ev (User f) w"
| "step (CallOnce ev f) w = once ev f w"
| "step (CallOff ev cbo) w = off ev cbo w"
| "step (CallTrigger d) w = trigger d w"
| "step CallDisconnect w = disconnect w"

definition run :: "host_event list \<Rightarrow> runtime \<Rightarrow> runtime" where
  "run es w = foldl (\<lambda>v e. step e v) w es"

text \<open>
  The states a connector can be in: constructed, then any sequence of host events, each
  handled to its end before the next (an application callback does not call the connector
  while it runs).
\<close>

inductive reachable :: "runtime \<Rightarrow> bool" where
  constructed: "reachable (KalzeChannel_new channelName opts throws)"
| stepped: "reachable w \<Longrightarrow> reachable (step e w)"

section \<open>Observing a run\<close>

text \<open>
  The effects of a run other than the calls of application functions: what the connector
  itself emitted, sent, opened, closed and scheduled, in order.
\<close>

fun is_call :: "effect \<Rightarrow> bool" where
  "is_call (Called f p) = True"
| "is_call _ = False"

definition actions :: "effect list \<Rightarrow> effect list" where
  "actions xs = filter (\<lambda>x. \<not> is_call x) xs"

text \<open>
  Two states that differ at most in the subscriptions and in the calls of application
  functions recorded so far.
\<close>

definition untouched :: "runtime \<Rightarrow> runtime \<Rightarrow> bool" where
  "untouched w w' \<longleftrightarrow>
     name w' = name w \<and> options w' = options w \<and> ws w' = ws w \<and> socketId w' = socketId w \<and>
     state w' = state w \<and> reconnectAttempts w' = reconnectAttempts w \<and>
     reconnectTimeout w' = reconnectTimeout w \<and> heartbeatInterval w' = heartbeatInterval w \<and>
     nextSet w' = nextSet w \<and> nextWrapper w' = nextWrapper w \<and>
     sockets w' = sockets w \<and> timeouts w' = timeouts w \<and> intervals w' = intervals w \<and>
     nextTimer w' = nextTimer w \<and> actions (trace w') = actions (trace w)"

text \<open>Options with a well-formed key and every default, used in the concrete runs below.\<close>

definition example_options :: KalzeOptions where
  "example_options =
     \<lparr>opt_key = ''wpk_live_abcdefghijklmnopqrstuvwxyzABCDEFGHIJ0123_-x'',
      opt_subdomain = ''acme'', opt_wsUrl = None, opt_autoReconnect = None,
      opt_maxReconnectAttempts = None, opt_reconnectDelay = None, opt_debug = None\<rparr>"

definition bad_key_options :: KalzeOptions where
  "bad_key_options = example_options\<lparr>opt_key := ''bad-key''\<rparr>"

definition limited_options :: "bool \<Rightarrow> int \<Rightarrow> KalzeOptions" where
  "limited_options auto n =
     example_options\<lparr>opt_autoReconnect := Some auto, opt_maxReconnectAttempts := Some n\<rparr>"





text \<open>
  What can still call the connector back: the sockets that have not delivered their close
  event, and the one-shot timers that have not fired.
\<close>

definition live :: "ReadyState list \<Rightarrow> nat" where
  "live rs = length (filter (\<lambda>r. r \<noteq> CLOSED) rs)"

definition pending :: "runtime \<Rightarrow> nat" where
  "pending w = live (sockets w) + length (timeouts w)"

text \<open>
  The effects by which a connector acts of its own accord: a connection attempt, the
  scheduling of one, and every event it emits.
\<close>

fun own_activity :: "effect \<Rightarrow> bool" where
  "own_activity (NewWebSocket s u) = True"
| "own_activity (NewWebSocketThrew u) = True"
| "own_activity (SetTimeout t d) = True"
| "own_activity (Emitted ev d) = True"
| "own_activity _ = False"

text \<open>
  The subscriptions as the application sees them: the callbacks registered for an event,
  in the order of their registration, and the application function a callback ends up
  calling.
\<close>

fun target :: "callback \<Rightarrow> nat" where
  "target (User f) = f"
| "target (OnceWrapper k ev f) = f"

fun entries :: "callback option list \<Rightarrow> callback list" where
  "entries [] = []"
| "entries (None # es) = entries es"
| "entries (Some cb # es) = cb # entries es"

definition listeners :: "runtime \<Rightarrow> string \<Rightarrow> callback list" where
  "listeners w ev = (case eventListeners w ev of None \<Rightarrow> [] | Some a \<Rightarrow> entries (setObjects w a))"

text \<open>
  What the \<open>Map\<close> of \<open>Set\<close>s guarantees by construction: a set holds a callback at
  most once, a wrapper sits in the set of its own event, two events never share a set, and
  the sets in use were allocated.
\<close>

definition wf_listeners :: "runtime \<Rightarrow> bool" where
  "wf_listeners w \<longleftrightarrow>
     (\<forall>ev a. eventListeners w ev = Some a \<longrightarrow>
        a < nextSet w \<and> distinct (entries (setObjects w a)) \<and>
        (\<forall>k e f. Some (OnceWrapper k e f) \<in> set (setObjects w a) \<longrightarrow> e = ev) \<and>
        (\<forall>e'. eventListeners w e' = Some a \<longrightarrow> e' = ev))"

text \<open>
  While the set at \<open>a\<close> is being walked for the event \<open>ev\<close>: the event still maps to
  this set or to none, and the wrappers in it belong to the event.
\<close>

definition loop_ok :: "string \<Rightarrow> nat \<Rightarrow> runtime \<Rightarrow> bool" where
  "loop_ok ev a w \<longleftrightarrow>
     (eventListeners w ev = Some a \<or> eventListeners w ev = None) \<and>
     (\<forall>k e f. Some (OnceWrapper k e f) \<in> set (setObjects w a) \<longrightarrow> e = ev)"

text \<open>Concrete runs used below.\<close>

definition opened :: runtime where
  "opened = step (SocketOpen 0) (KalzeChannel_new ''room'' example_options False)"


definition exhausted_at_close :: runtime where
  "exhausted_at_close = KalzeChannel_new ''room'' (limited_options True 0) False"

definition exhausted_at_timer :: runtime where
  "exhausted_at_timer =
     step (SocketClose 0 1006 []) (KalzeChannel_new ''room'' (limited_options True 1) False)"

definition subscribed :: runtime where
  "subscribed =
     run [CallOn ''message'' 1, CallOnce ''message'' 2, CallOn ''message'' 3, CallOn ''*'' 4]
       (KalzeChannel_new ''room'' example_options False)"

section \<open>Basic facts\<close>

lemma actions_append [simp]: "actions (xs @ ys) = actions xs @ actions ys"
  by (simp add: actions_def)

lemma actions_Nil [simp]: "actions [] = []"
  by (simp add: actions_def)

lemma actions_Cons [simp]: "actions (x # xs) = (if is_call x then actions xs else x # actions xs)"
  by (simp add: actions_def)

lemma untouched_refl: "untouched w w"
  by (simp add: untouched_def)

lemma untouched_trans: "untouched w w1 \<Longrightarrow> untouched w1 w2 \<Longrightarrow> untouched w w2"
  by (simp add: untouched_def)

lemma untouched_off: "untouched w (off ev cbo w)"
  by (simp add: untouched_def off_def Let_def split: option.splits)

lemma untouched_invoke: "untouched w (invoke cb p w)"
  by (cases cb) (simp_all add: untouched_def perform_def off_def Let_def split: option.splits)

lemma untouched_forEach: "untouched w (forEach a p i w)"
proof (induction a p i w rule: forEach.induct)
  case (1 a p i w)
  show ?case
  proof (cases "i < length (setObjects w a)")
    case False
    then show ?thesis by (simp add: forEach.simps untouched_refl)
  next
    case True
    show ?thesis
    proof (cases "setObjects w a ! i")
      case None
      with True "1.IH"(1) show ?thesis by (simp add: forEach.simps)
    next
      case (Some cb)
      with True "1.IH"(2) have "untouched (invoke cb p w) (forEach a p i w)"
        by (simp add: forEach.simps)
      with untouched_invoke show ?thesis by (rule untouched_trans)
    qed
  qed
qed

lemma untouched_emit_aux: "untouched (perform (Emitted ev d) w) (emit ev d w)"
  unfolding emit_def Let_def
  by (auto split: option.splits intro: untouched_refl untouched_forEach untouched_trans)

lemma emit_fields [simp]:
  "name (emit ev d w) = name w" "options (emit ev d w) = options w"
  "ws (emit ev d w) = ws w" "socketId (emit ev d w) = socketId w"
  "state (emit ev d w) = state w" "reconnectAttempts (emit ev d w) = reconnectAttempts w"
  "reconnectTimeout (emit ev d w) = reconnectTimeout w"
  "heartbeatInterval (emit ev d w) = heartbeatInterval w"
  "nextSet (emit ev d w) = nextSet w" "nextWrapper (emit ev d w) = nextWrapper w"
  "sockets (emit ev d w) = sockets w" "timeouts (emit ev d w) = timeouts w"
  "intervals (emit ev d w) = intervals w" "nextTimer (emit ev d w) = nextTimer w"
  "actions (trace (emit ev d w)) = actions (trace w) @ [Emitted ev d]"
  using untouched_emit_aux [of ev d w] by (simp_all add: untouched_def perform_def)

lemma readyStateOf_emit [simp]: "readyStateOf (emit ev d w) s = readyStateOf w s"
  by (simp add: readyStateOf_def)

lemma stopHeartbeat_fields [simp]:
  "name (stopHeartbeat w) = name w" "options (stopHeartbeat w) = options w"
  "ws (stopHeartbeat w) = ws w" "socketId (stopHeartbeat w) = socketId w"
  "state (stopHeartbeat w) = state w" "reconnectAttempts (stopHeartbeat w) = reconnectAttempts w"
  "reconnectTimeout (stopHeartbeat w) = reconnectTimeout w"
  "heartbeatInterval (stopHeartbeat w) = None"
  "sockets (stopHeartbeat w) = sockets w" "timeouts (stopHeartbeat w) = timeouts w"
  "nextTimer (stopHeartbeat w) = nextTimer w"
  "eventListeners (stopHeartbeat w) = eventListeners w"
  "setObjects (stopHeartbeat w) = setObjects w"
  "nextSet (stopHeartbeat w) = nextSet w" "nextWrapper (stopHeartbeat w) = nextWrapper w"
  by (simp_all add: stopHeartbeat_def perform_def split: option.splits)

lemma stopHeartbeat_intervals [simp]:
  "intervals (stopHeartbeat w) =
     (case heartbeatInterval w of None \<Rightarrow> intervals w | Some h \<Rightarrow> removeAll h (intervals w))"
  by (simp add: stopHeartbeat_def perform_def split: option.splits)

lemma stopHeartbeat_actions [simp]:
  "actions (trace (stopHeartbeat w)) =
     actions (trace w) @ (case heartbeatInterval w of None \<Rightarrow> [] | Some h \<Rightarrow> [ClearInterval h])"
  by (simp add: stopHeartbeat_def perform_def split: option.splits)

lemma scheduleReconnect_fields [simp]:
  "name (scheduleReconnect w) = name w" "options (scheduleReconnect w) = options w"
  "ws (scheduleReconnect w) = ws w" "socketId (scheduleReconnect w) = socketId w"
  "state (scheduleReconnect w) = state w"
  "heartbeatInterval (scheduleReconnect w) = heartbeatInterval w"
  "sockets (scheduleReconnect w) = sockets w" "intervals (scheduleReconnect w) = intervals w"
  "nextSet (scheduleReconnect w) = nextSet w" "nextWrapper (scheduleReconnect w) = nextWrapper w"
  by (simp_all add: scheduleReconnect_def Let_def perform_def)

lemma times_pow2_exact:
  "k < 1024 \<Longrightarrow> \<bar>d\<bar> * 2 ^ k < 2 ^ 1024 \<Longrightarrow> times_pow2 d k = JNum (d * 2 ^ k)"
  by (simp add: times_pow2_def)

lemma times_pow2_first [simp]: "times_pow2 1000 0 = JNum 1000"
  by (simp add: times_pow2_def)

text \<open>Beyond the largest finite number the delay is no longer the product.\<close>

lemma times_pow2_beyond:
  "0 < d \<Longrightarrow> 2 ^ 1024 \<le> d * 2 ^ k \<Longrightarrow> times_pow2 d k = JInfinity"
  "d < 0 \<Longrightarrow> 2 ^ 1024 \<le> \<bar>d\<bar> * 2 ^ k \<Longrightarrow> times_pow2 d k = JNegInfinity"
  "1024 \<le> k \<Longrightarrow> times_pow2 0 k = JNaN"
  "times_pow2 (2 ^ 1023) 1 = JInfinity"
  by (simp_all add: times_pow2_def)

lemma scheduleReconnect_retry:
  assumes "autoReconnect (options w)" "int (reconnectAttempts w) < maxReconnectAttempts (options w)"
  shows "reconnectAttempts (scheduleReconnect w) = Suc (reconnectAttempts w)"
    and "reconnectTimeout (scheduleReconnect w) = Some (nextTimer w)"
    and "timeouts (scheduleReconnect w) = timeouts w @ [nextTimer w]"
    and "nextTimer (scheduleReconnect w) = Suc (nextTimer w)"
    and "actions (trace (scheduleReconnect w)) =
           actions (trace w) @
           [Emitted ''reconnecting''
              (JObj [(''attempt'', JNum (int (reconnectAttempts w) + 1)),
                     (''delay'', times_pow2 (reconnectDelay (options w)) (reconnectAttempts w))]),
            SetTimeout (nextTimer w) (times_pow2 (reconnectDelay (options w)) (reconnectAttempts w))]"
  using assms by (simp_all add: scheduleReconnect_def Let_def perform_def)

lemma scheduleReconnect_idle:
  assumes "\<not> autoReconnect (options w) \<or> maxReconnectAttempts (options w) \<le> int (reconnectAttempts w)"
  shows "reconnectAttempts (scheduleReconnect w) = reconnectAttempts w"
    and "reconnectTimeout (scheduleReconnect w) = reconnectTimeout w"
    and "timeouts (scheduleReconnect w) = timeouts w"
    and "nextTimer (scheduleReconnect w) = nextTimer w"
    and "actions (trace (scheduleReconnect w)) =
           actions (trace w) @
           (if autoReconnect (options w)
            then [Emitted ''reconnect:failed'' (JObj [(''attempts'', JNum (int (reconnectAttempts w)))])]
            else [])"
  using assms by (auto simp add: scheduleReconnect_def Let_def perform_def)

lemma handleClose_head:
  "\<exists>w4. handleClose code reason w = (if terminal_code code then w4 else scheduleReconnect w4) \<and>
     name w4 = name w \<and> options w4 = options w \<and> ws w4 = None \<and> socketId w4 = JNull \<and>
     state w4 = disconnected \<and> reconnectAttempts w4 = reconnectAttempts w \<and>
     reconnectTimeout w4 = reconnectTimeout w \<and> heartbeatInterval w4 = None \<and>
     sockets w4 = sockets w \<and> timeouts w4 = timeouts w \<and> nextTimer w4 = nextTimer w \<and>
     intervals w4 = (case heartbeatInterval w of None \<Rightarrow> intervals w
                     | Some h \<Rightarrow> removeAll h (intervals w)) \<and>
     actions (trace w4) =
       actions (trace w)
       @ (case getCloseReasonMessage code reason of
            None \<Rightarrow> []
          | Some m \<Rightarrow> [Emitted ''error'' (JObj [(''code'', JNum (int code)), (''message'', JStr m)])])
       @ (case heartbeatInterval w of None \<Rightarrow> [] | Some h \<Rightarrow> [ClearInterval h])
       @ [Emitted ''disconnected'' (JObj [(''code'', JNum (int code)), (''reason'', JStr reason)]),
          Emitted ''state:change'' (JObj [(''state'', JStr ''disconnected'')])]"
proof -
  have m: "getCloseReasonMessage code reason \<noteq> Some []"
    by (simp add: getCloseReasonMessage_def)
  show ?thesis
    unfolding handleClose_def Let_def
    apply (rule exI, rule conjI, rule refl)
    using m by (auto simp add: state_name_def split: option.splits)
qed


lemma handleClose_terminal:
  assumes "terminal_code code"
  shows "reconnectAttempts (handleClose code reason w) = reconnectAttempts w"
    and "reconnectTimeout (handleClose code reason w) = reconnectTimeout w"
    and "timeouts (handleClose code reason w) = timeouts w"
    and "nextTimer (handleClose code reason w) = nextTimer w"
    and "actions (trace (handleClose code reason w)) =
           actions (trace w)
           @ (case getCloseReasonMessage code reason of
                None \<Rightarrow> []
              | Some m \<Rightarrow> [Emitted ''error'' (JObj [(''code'', JNum (int code)), (''message'', JStr m)])])
           @ (case heartbeatInterval w of None \<Rightarrow> [] | Some h \<Rightarrow> [ClearInterval h])
           @ [Emitted ''disconnected'' (JObj [(''code'', JNum (int code)), (''reason'', JStr reason)]),
              Emitted ''state:change'' (JObj [(''state'', JStr ''disconnected'')])]"
  using handleClose_head [of code reason w] assms by auto

lemma handleClose_retry:
  assumes "\<not> terminal_code code" "autoReconnect (options w)"
    "int (reconnectAttempts w) < maxReconnectAttempts (options w)"
  shows "reconnectAttempts (handleClose code reason w) = Suc (reconnectAttempts w)"
    and "reconnectTimeout (handleClose code reason w) = Some (nextTimer w)"
    and "timeouts (handleClose code reason w) = timeouts w @ [nextTimer w]"
    and "actions (trace (handleClose code reason w)) =
           actions (trace w)
           @ (case getCloseReasonMessage code reason of
                None \<Rightarrow> []
              | Some m \<Rightarrow> [Emitted ''error'' (JObj [(''code'', JNum (int code)), (''message'', JStr m)])])
           @ (case heartbeatInterval w of None \<Rightarrow> [] | Some h \<Rightarrow> [ClearInterval h])
           @ [Emitted ''disconnected'' (JObj [(''code'', JNum (int code)), (''reason'', JStr reason)]),
              Emitted ''state:change'' (JObj [(''state'', JStr ''disconnected'')]),
              Emitted ''reconnecting''
                (JObj [(''attempt'', JNum (int (reconnectAttempts w) + 1)),
                       (''delay'', times_pow2 (reconnectDelay (options w)) (reconnectAttempts w))]),
              SetTimeout (nextTimer w) (times_pow2 (reconnectDelay (options w)) (reconnectAttempts w))]"
proof -
  obtain w4 where h: "handleClose code reason w = scheduleReconnect w4"
    "options w4 = options w" "reconnectAttempts w4 = reconnectAttempts w"
    "timeouts w4 = timeouts w" "nextTimer w4 = nextTimer w"
    "actions (trace w4) =
       actions (trace w)
       @ (case getCloseReasonMessage code reason of
            None \<Rightarrow> []
          | Some m \<Rightarrow> [Emitted ''error'' (JObj [(''code'', JNum (int code)), (''message'', JStr m)])])
       @ (case heartbeatInterval w of None \<Rightarrow> [] | Some h \<Rightarrow> [ClearInterval h])
       @ [Emitted ''disconnected'' (JObj [(''code'', JNum (int code)), (''reason'', JStr reason)]),
          Emitted ''state:change'' (JObj [(''state'', JStr ''disconnected'')])]"
    using handleClose_head [of code reason w] assms(1) by auto
  have r: "autoReconnect (options w4)" "int (reconnectAttempts w4) < maxReconnectAttempts (options w4)"
    using assms h by simp_all
  show "reconnectAttempts (handleClose code reason w) = Suc (reconnectAttempts w)"
    using scheduleReconnect_retry(1) [OF r] h by simp
  show "reconnectTimeout (handleClose code reason w) = Some (nextTimer w)"
    using scheduleReconnect_retry(2) [OF r] h by simp
  show "timeouts (handleClose code reason w) = timeouts w @ [nextTimer w]"
    using scheduleReconnect_retry(3) [OF r] h by simp
  show "actions (trace (handleClose code reason w)) =
           actions (trace w)
           @ (case getCloseReasonMessage code reason of
                None \<Rightarrow> []
              | Some m \<Rightarrow> [Emitted ''error'' (JObj [(''code'', JNum (int code)), (''message'', JStr m)])])
           @ (case heartbeatInterval w of None \<Rightarrow> [] | Some h \<Rightarrow> [ClearInterval h])
           @ [Emitted ''disconnected'' (JObj [(''code'', JNum (int code)), (''reason'', JStr reason)]),
              Emitted ''state:change'' (JObj [(''state'', JStr ''disconnected'')]),
              Emitted ''reconnecting''
                (JObj [(''attempt'', JNum (int (reconnectAttempts w) + 1)),
                       (''delay'', times_pow2 (reconnectDelay (options w)) (reconnectAttempts w))]),
              SetTimeout (nextTimer w) (times_pow2 (reconnectDelay (options w)) (reconnectAttempts w))]"
    using scheduleReconnect_retry(5) [OF r] h by simp
qed


lemma startHeartbeat_fields [simp]:
  "name (startHeartbeat w) = name w" "options (startHeartbeat w) = options w"
  "ws (startHeartbeat w) = ws w" "socketId (startHeartbeat w) = socketId w"
  "state (startHeartbeat w) = state w" "reconnectAttempts (startHeartbeat w) = reconnectAttempts w"
  "reconnectTimeout (startHeartbeat w) = reconnectTimeout w"
  "heartbeatInterval (startHeartbeat w) = Some (nextTimer w)"
  "sockets (startHeartbeat w) = sockets w" "timeouts (startHeartbeat w) = timeouts w"
  "nextTimer (startHeartbeat w) = Suc (nextTimer w)"
  "eventListeners (startHeartbeat w) = eventListeners w"
  "setObjects (startHeartbeat w) = setObjects w"
  "nextSet (startHeartbeat w) = nextSet w" "nextWrapper (startHeartbeat w) = nextWrapper w"
  by (simp_all add: startHeartbeat_def Let_def perform_def)

lemma startHeartbeat_actions [simp]:
  "actions (trace (startHeartbeat w)) =
     actions (trace w)
     @ (case heartbeatInterval w of None \<Rightarrow> [] | Some h \<Rightarrow> [ClearInterval h])
     @ [SetInterval (nextTimer w) 25000]"
  by (simp add: startHeartbeat_def Let_def perform_def)

lemma emit_no_listeners:
  "eventListeners w = (\<lambda>_. None) \<Longrightarrow> emit ev d w = perform (Emitted ev d) w"
  by (simp add: emit_def perform_def)

lemma valid_example_key: "isValidPublicKey (opt_key example_options)"
  by (simp add: example_options_def isValidPublicKey_def url_safe_def)

lemma required_example_options:
  "autoReconnect (required example_options)"
  "maxReconnectAttempts (required example_options) = 10"
  "reconnectDelay (required example_options) = 1000"
  "key (required example_options) = opt_key example_options"
  by (simp_all add: required_def example_options_def)

lemma fresh_fields [simp]:
  "name (fresh n opts) = n" "options (fresh n opts) = required opts"
  "ws (fresh n opts) = None" "socketId (fresh n opts) = JNull"
  "state (fresh n opts) = disconnected" "reconnectAttempts (fresh n opts) = 0"
  "reconnectTimeout (fresh n opts) = None" "heartbeatInterval (fresh n opts) = None"
  "eventListeners (fresh n opts) = (\<lambda>_. None)" "sockets (fresh n opts) = []"
  "timeouts (fresh n opts) = []" "intervals (fresh n opts) = []"
  "nextTimer (fresh n opts) = 1" "trace (fresh n opts) = []"
  by (simp_all add: fresh_def)

lemma connect_opens:
  assumes "state w = disconnected \<or> state w = reconnecting"
    and "isValidPublicKey (key (options w))"
  shows "options (connect False w) = options w"
    and "state (connect False w) = (if reconnectAttempts w > 0 then reconnecting else connecting)"
    and "ws (connect False w) = Some (length (sockets w))"
    and "socketId (connect False w) = socketId w"
    and "sockets (connect False w) = sockets w @ [CONNECTING]"
    and "reconnectAttempts (connect False w) = reconnectAttempts w"
    and "timeouts (connect False w) = timeouts w"
    and "nextTimer (connect False w) = nextTimer w"
    and "heartbeatInterval (connect False w) = heartbeatInterval w"
    and "reconnectTimeout (connect False w) = reconnectTimeout w"
    and "actions (trace (connect False w)) =
           actions (trace w) @
           [Emitted ''state:change''
              (JObj [(''state'', JStr (if reconnectAttempts w > 0 then ''reconnecting'' else ''connecting''))]),
            NewWebSocket (length (sockets w)) (connect_url w)]"
  using assms
  by (auto simp add: connect_def Let_def perform_def state_name_def connect_url_def)

lemma connect_dist_opens:
  assumes "state w = disconnected \<or> state w = reconnecting"
  shows "options (connect_dist False w) = options w"
    and "state (connect_dist False w) = (if reconnectAttempts w > 0 then reconnecting else connecting)"
    and "ws (connect_dist False w) = Some (length (sockets w))"
    and "sockets (connect_dist False w) = sockets w @ [CONNECTING]"
    and "reconnectAttempts (connect_dist False w) = reconnectAttempts w"
    and "timeouts (connect_dist False w) = timeouts w"
    and "nextTimer (connect_dist False w) = nextTimer w"
    and "heartbeatInterval (connect_dist False w) = heartbeatInterval w"
    and "actions (trace (connect_dist False w)) =
           actions (trace w) @
           [Emitted ''state:change''
              (JObj [(''state'', JStr (if reconnectAttempts w > 0 then ''reconnecting'' else ''connecting''))]),
            NewWebSocket (length (sockets w)) (connect_url w)]"
  using assms
  by (auto simp add: connect_dist_def Let_def perform_def state_name_def connect_url_def)

lemma connect_invalid_key:
  assumes "state w = disconnected \<or> state w = reconnecting"
    and "\<not> isValidPublicKey (key (options w))"
  shows "connect throws w =
           emit ''error''
             (JObj [(''code'', JNum 4403),
                    (''message'', JStr ''Invalid public API key format. Expected wpk_live_*'')]) w"
  using assms by (auto simp add: connect_def)

lemma handleClose_dist_retry:
  assumes "code \<notin> {4000, 4001, 4002, 4999}" "autoReconnect (options w)"
    "int (reconnectAttempts w) < maxReconnectAttempts (options w)"
  shows "reconnectAttempts (handleClose_dist code reason w) = Suc (reconnectAttempts w)"
    and "reconnectTimeout (handleClose_dist code reason w) = Some (nextTimer w)"
    and "timeouts (handleClose_dist code reason w) = timeouts w @ [nextTimer w]"
    and "actions (trace (handleClose_dist code reason w)) =
           actions (trace w)
           @ (case heartbeatInterval w of None \<Rightarrow> [] | Some h \<Rightarrow> [ClearInterval h])
           @ [Emitted ''disconnected'' (JObj [(''code'', JNum (int code)), (''reason'', JStr reason)]),
              Emitted ''state:change'' (JObj [(''state'', JStr ''disconnected'')]),
              Emitted ''reconnecting''
                (JObj [(''attempt'', JNum (int (reconnectAttempts w) + 1)),
                       (''delay'', times_pow2 (reconnectDelay (options w)) (reconnectAttempts w))]),
              SetTimeout (nextTimer w) (times_pow2 (reconnectDelay (options w)) (reconnectAttempts w))]"
proof -
  define w4 where
    "w4 = emit ''state:change'' (JObj [(''state'', JStr ''disconnected'')])
            (emit ''disconnected'' (JObj [(''code'', JNum (int code)), (''reason'', JStr reason)])
               ((stopHeartbeat w)\<lparr>ws := None, socketId := JNull, state := disconnected\<rparr>))"
  have h: "handleClose_dist code reason w = scheduleReconnect w4"
    using assms(1) by (simp add: handleClose_dist_def Let_def w4_def state_name_def)
  have f: "options w4 = options w" "reconnectAttempts w4 = reconnectAttempts w"
    "timeouts w4 = timeouts w" "nextTimer w4 = nextTimer w"
    "actions (trace w4) =
       actions (trace w)
       @ (case heartbeatInterval w of None \<Rightarrow> [] | Some h \<Rightarrow> [ClearInterval h])
       @ [Emitted ''disconnected'' (JObj [(''code'', JNum (int code)), (''reason'', JStr reason)]),
          Emitted ''state:change'' (JObj [(''state'', JStr ''disconnected'')])]"
    by (simp_all add: w4_def)
  have r: "autoReconnect (options w4)" "int (reconnectAttempts w4) < maxReconnectAttempts (options w4)"
    using assms f by simp_all
  show "reconnectAttempts (handleClose_dist code reason w) = Suc (reconnectAttempts w)"
    using scheduleReconnect_retry(1) [OF r] h f by simp
  show "reconnectTimeout (handleClose_dist code reason w) = Some (nextTimer w)"
    using scheduleReconnect_retry(2) [OF r] h f by simp
  show "timeouts (handleClose_dist code reason w) = timeouts w @ [nextTimer w]"
    using scheduleReconnect_retry(3) [OF r] h f by simp
  show "actions (trace (handleClose_dist code reason w)) =
           actions (trace w)
           @ (case heartbeatInterval w of None \<Rightarrow> [] | Some h \<Rightarrow> [ClearInterval h])
           @ [Emitted ''disconnected'' (JObj [(''code'', JNum (int code)), (''reason'', JStr reason)]),
              Emitted ''state:change'' (JObj [(''state'', JStr ''disconnected'')]),
              Emitted ''reconnecting''
                (JObj [(''attempt'', JNum (int (reconnectAttempts w) + 1)),
                       (''delay'', times_pow2 (reconnectDelay (options w)) (reconnectAttempts w))]),
              SetTimeout (nextTimer w) (times_pow2 (reconnectDelay (options w)) (reconnectAttempts w))]"
    using scheduleReconnect_retry(5) [OF r] h f by simp
qed

lemma constructed_fields:
  assumes "isValidPublicKey (opt_key opts)"
  shows "options (KalzeChannel_new n opts False) = required opts"
    and "state (KalzeChannel_new n opts False) = connecting"
    and "ws (KalzeChannel_new n opts False) = Some 0"
    and "socketId (KalzeChannel_new n opts False) = JNull"
    and "sockets (KalzeChannel_new n opts False) = [CONNECTING]"
    and "reconnectAttempts (KalzeChannel_new n opts False) = 0"
    and "timeouts (KalzeChannel_new n opts False) = []"
    and "nextTimer (KalzeChannel_new n opts False) = 1"
    and "heartbeatInterval (KalzeChannel_new n opts False) = None"
    and "reconnectTimeout (KalzeChannel_new n opts False) = None"
    and "actions (trace (KalzeChannel_new n opts False)) =
           [Emitted ''state:change'' (JObj [(''state'', JStr ''connecting'')]),
            NewWebSocket 0 (connect_url (fresh n opts))]"
proof -
  have s: "state (fresh n opts) = disconnected \<or> state (fresh n opts) = reconnecting"
    by simp
  have k: "isValidPublicKey (key (options (fresh n opts)))"
    using assms by (simp add: required_def)
  note c = connect_opens [OF s k]
  show "options (KalzeChannel_new n opts False) = required opts"
    and "state (KalzeChannel_new n opts False) = connecting"
    and "ws (KalzeChannel_new n opts False) = Some 0"
    and "socketId (KalzeChannel_new n opts False) = JNull"
    and "sockets (KalzeChannel_new n opts False) = [CONNECTING]"
    and "reconnectAttempts (KalzeChannel_new n opts False) = 0"
    and "timeouts (KalzeChannel_new n opts False) = []"
    and "nextTimer (KalzeChannel_new n opts False) = 1"
    and "heartbeatInterval (KalzeChannel_new n opts False) = None"
    and "reconnectTimeout (KalzeChannel_new n opts False) = None"
    and "actions (trace (KalzeChannel_new n opts False)) =
           [Emitted ''state:change'' (JObj [(''state'', JStr ''connecting'')]),
            NewWebSocket 0 (connect_url (fresh n opts))]"
    unfolding KalzeChannel_new_def using c by simp_all
qed

lemma on_fields [simp]:
  "options (on ev cb w) = options w" "ws (on ev cb w) = ws w" "socketId (on ev cb w) = socketId w"
  "state (on ev cb w) = state w" "reconnectAttempts (on ev cb w) = reconnectAttempts w"
  "reconnectTimeout (on ev cb w) = reconnectTimeout w"
  "heartbeatInterval (on ev cb w) = heartbeatInterval w"
  "sockets (on ev cb w) = sockets w" "timeouts (on ev cb w) = timeouts w"
  "intervals (on ev cb w) = intervals w" "nextTimer (on ev cb w) = nextTimer w"
  "trace (on ev cb w) = trace w"
  by (simp_all add: on_def Let_def split: option.splits)

lemma once_fields [simp]:
  "options (once ev f w) = options w" "ws (once ev f w) = ws w" "socketId (once ev f w) = socketId w"
  "state (once ev f w) = state w" "reconnectAttempts (once ev f w) = reconnectAttempts w"
  "reconnectTimeout (once ev f w) = reconnectTimeout w"
  "heartbeatInterval (once ev f w) = heartbeatInterval w"
  "sockets (once ev f w) = sockets w" "timeouts (once ev f w) = timeouts w"
  "intervals (once ev f w) = intervals w" "nextTimer (once ev f w) = nextTimer w"
  "trace (once ev f w) = trace w"
  by (simp_all add: once_def)

lemma off_fields [simp]:
  "options (off ev cbo w) = options w" "ws (off ev cbo w) = ws w"
  "socketId (off ev cbo w) = socketId w"
  "state (off ev cbo w) = state w" "reconnectAttempts (off ev cbo w) = reconnectAttempts w"
  "reconnectTimeout (off ev cbo w) = reconnectTimeout w"
  "heartbeatInterval (off ev cbo w) = heartbeatInterval w"
  "sockets (off ev cbo w) = sockets w" "timeouts (off ev cbo w) = timeouts w"
  "intervals (off ev cbo w) = intervals w" "nextTimer (off ev cbo w) = nextTimer w"
  "trace (off ev cbo w) = trace w"
  by (simp_all add: off_def Let_def split: option.splits)

lemma trigger_fields [simp]:
  "options (trigger d w) = options w" "ws (trigger d w) = ws w"
  "socketId (trigger d w) = socketId w"
  "state (trigger d w) = state w" "reconnectAttempts (trigger d w) = reconnectAttempts w"
  "reconnectTimeout (trigger d w) = reconnectTimeout w"
  "heartbeatInterval (trigger d w) = heartbeatInterval w"
  "sockets (trigger d w) = sockets w" "timeouts (trigger d w) = timeouts w"
  "intervals (trigger d w) = intervals w" "nextTimer (trigger d w) = nextTimer w"
  by (simp_all add: trigger_def perform_def split: option.splits)

lemma heartbeat_fields [simp]:
  "options (heartbeat w) = options w" "ws (heartbeat w) = ws w"
  "socketId (heartbeat w) = socketId w"
  "state (heartbeat w) = state w" "reconnectAttempts (heartbeat w) = reconnectAttempts w"
  "reconnectTimeout (heartbeat w) = reconnectTimeout w"
  "heartbeatInterval (heartbeat w) = heartbeatInterval w"
  "sockets (heartbeat w) = sockets w" "timeouts (heartbeat w) = timeouts w"
  "intervals (heartbeat w) = intervals w" "nextTimer (heartbeat w) = nextTimer w"
  by (simp_all add: heartbeat_def perform_def split: option.splits)

lemma disconnect_fields [simp]:
  "options (disconnect w) = options w" "ws (disconnect w) = None"
  "socketId (disconnect w) = JNull" "state (disconnect w) = disconnected"
  "reconnectAttempts (disconnect w) = reconnectAttempts w"
  "reconnectTimeout (disconnect w) = None" "heartbeatInterval (disconnect w) = None"
  "eventListeners (disconnect w) = (\<lambda>_. None)"
  "nextTimer (disconnect w) = nextTimer w"
  by (simp_all add: disconnect_def Let_def ws_close_def perform_def split: option.splits)

lemma handleConnectionEstablished_fields [simp]:
  "options (handleConnectionEstablished d w) = options w"
  "ws (handleConnectionEstablished d w) = ws w"
  "sockets (handleConnectionEstablished d w) = sockets w"
  "timeouts (handleConnectionEstablished d w) = timeouts w"
  "reconnectTimeout (handleConnectionEstablished d w) = reconnectTimeout w"
  by (simp_all add: handleConnectionEstablished_def Let_def split: option.splits)

lemma handleMessage_fields [simp]:
  "options (handleMessage m w) = options w"
  "ws (handleMessage m w) = ws w"
  "sockets (handleMessage m w) = sockets w"
  "timeouts (handleMessage m w) = timeouts w"
  "reconnectTimeout (handleMessage m w) = reconnectTimeout w"
  by (simp_all add: handleMessage_def split: option.splits)

lemma handleClose_fields [simp]:
  "options (handleClose code reason w) = options w"
  "ws (handleClose code reason w) = None"
  "socketId (handleClose code reason w) = JNull"
  "state (handleClose code reason w) = disconnected"
  "sockets (handleClose code reason w) = sockets w"
  "heartbeatInterval (handleClose code reason w) = None"
  using handleClose_head [of code reason w] by auto

lemma connect_fields [simp]:
  "options (connect throws w) = options w"
  "socketId (connect throws w) = socketId w"
  "heartbeatInterval (connect throws w) = heartbeatInterval w"
  "intervals (connect throws w) = intervals w"
  by (simp_all add: connect_def Let_def perform_def)


lemma data_socketId_string: "socketId_of d = Some sid \<Longrightarrow> data_socketId d = Some (JStr sid)"
  by (auto simp add: socketId_of_def data_socketId_def split: json.splits option.splits)


text \<open>
  A payload without a string \<open>socketId\<close> is stored all the same: the handler does not
  look at what it stores.
\<close>

lemma untyped_established_payload:
  "state (handleConnectionEstablished (JObj [(''socketId'', JNull)]) w) = connected"
  "socketId (handleConnectionEstablished (JObj [(''socketId'', JNull)]) w) = JNull"
  "state (handleConnectionEstablished (JObj []) w) = connected"
  "socketId (handleConnectionEstablished (JObj []) w) = JUndefined"
  "socketId (handleConnectionEstablished (JObj [(''socketId'', JNum 7)]) w) = JNum 7"
  "socketId (handleConnectionEstablished (JStr ''s1'') w) = JUndefined"
  "handleConnectionEstablished JNull w = w"
  by (simp_all add: handleConnectionEstablished_def data_socketId_def Let_def)




















lemma live_append [simp]: "live (xs @ ys) = live xs + live ys"
  by (simp add: live_def)

lemma live_Nil [simp]: "live [] = 0"
  by (simp add: live_def)

lemma live_Cons [simp]: "live (r # rs) = (if r = CLOSED then live rs else Suc (live rs))"
  by (simp add: live_def)

lemma live_update_closed:
  "s < length rs \<Longrightarrow> rs ! s \<noteq> CLOSED \<Longrightarrow> Suc (live (rs[s := CLOSED])) = live rs"
proof (induction rs arbitrary: s)
  case Nil
  then show ?case by simp
next
  case (Cons a rs)
  then show ?case by (cases s) simp_all
qed

lemma live_update_live:
  "s < length rs \<Longrightarrow> rs ! s \<noteq> CLOSED \<Longrightarrow> r \<noteq> CLOSED \<Longrightarrow> live (rs[s := r]) = live rs"
proof (induction rs arbitrary: s)
  case Nil
  then show ?case by simp
next
  case (Cons a rs)
  then show ?case by (cases s) simp_all
qed

lemma live_zero_iff: "live rs = 0 \<longleftrightarrow> (\<forall>r \<in> set rs. r = CLOSED)"
  by (induction rs) auto

lemma length_removeAll_less: "t \<in> set ts \<Longrightarrow> length (removeAll t ts) < length ts"
  by (induction ts) (auto simp add: less_Suc_eq_le)

lemma scheduleReconnect_timeouts:
  "timeouts (scheduleReconnect w) = timeouts w \<or>
   timeouts (scheduleReconnect w) = timeouts w @ [nextTimer w]"
  by (simp add: scheduleReconnect_def Let_def perform_def)

lemma pending_scheduleReconnect: "pending (scheduleReconnect w) \<le> Suc (pending w)"
  using scheduleReconnect_timeouts [of w] by (auto simp add: pending_def)

lemma pending_connect: "pending (connect throws w) \<le> Suc (pending w)"
proof -
  define w2 where
    "w2 = emit ''state:change''
            (JObj [(''state'', JStr (state_name (if reconnectAttempts w > 0 then reconnecting
                                                 else connecting)))])
            (w\<lparr>state := (if reconnectAttempts w > 0 then reconnecting else connecting)\<rparr>)"
  have 2: "pending w2 = pending w"
    by (simp add: w2_def pending_def)
  define w3 where
    "w3 = emit ''error'' (JObj [(''message'', JStr ''Failed to connect'')])
            (perform (NewWebSocketThrew (connect_url w2)) w2)"
  have 3: "pending w3 = pending w"
    using 2 by (simp add: w3_def pending_def perform_def)
  have 4: "pending (scheduleReconnect w3) \<le> Suc (pending w)"
    using pending_scheduleReconnect [of w3] 3 by simp
  have 5: "pending ((perform (NewWebSocket (length (sockets w2)) (connect_url w2)) w2)
                      \<lparr>ws := Some (length (sockets w2)), sockets := sockets w2 @ [CONNECTING]\<rparr>)
           = Suc (pending w)"
    using 2 by (simp add: pending_def perform_def)
  have "connect throws w =
          (if state w = connecting \<or> state w = connected then w
           else if \<not> isValidPublicKey (key (options w))
           then emit ''error''
                  (JObj [(''code'', JNum 4403),
                         (''message'', JStr ''Invalid public API key format. Expected wpk_live_*'')]) w
           else if throws then scheduleReconnect w3
           else (perform (NewWebSocket (length (sockets w2)) (connect_url w2)) w2)
                  \<lparr>ws := Some (length (sockets w2)), sockets := sockets w2 @ [CONNECTING]\<rparr>)"
    by (simp add: connect_def Let_def w2_def w3_def)
  then show ?thesis
    using 4 5 by (simp add: pending_def)
qed

lemma pending_handleClose: "pending (handleClose code reason w) \<le> Suc (pending w)"
proof -
  obtain w4 where h: "handleClose code reason w = (if terminal_code code then w4 else scheduleReconnect w4)"
    "sockets w4 = sockets w" "timeouts w4 = timeouts w"
    using handleClose_head [of code reason w] by auto
  then have "pending w4 = pending w"
    by (simp add: pending_def)
  with h(1) pending_scheduleReconnect [of w4] show ?thesis by auto
qed

lemma ws_close_live: "live (sockets (ws_close s code reason w)) = live (sockets w)"
proof -
  have "s < length (sockets w) \<Longrightarrow> sockets w ! s \<noteq> CLOSED \<Longrightarrow>
        live ((sockets w)[s := CLOSING]) = live (sockets w)"
    using live_update_live [of s "sockets w" CLOSING] by simp
  then show ?thesis
    by (auto simp add: ws_close_def perform_def readyStateOf_def split: if_splits)
qed

lemma disconnect_pending: "pending (disconnect w) \<le> pending w"
proof -
  define w1 where "w1 = (case reconnectTimeout w of
                  None \<Rightarrow> w
                | Some t \<Rightarrow>
                    (perform (ClearTimeout t) w)
                      \<lparr>reconnectTimeout := None, timeouts := removeAll t (timeouts w)\<rparr>)"
  have 1: "sockets w1 = sockets w" "length (timeouts w1) \<le> length (timeouts w)"
    by (simp_all add: w1_def perform_def split: option.splits)
  define w3 where "w3 = (case ws (stopHeartbeat w1) of
                  None \<Rightarrow> stopHeartbeat w1
                | Some s \<Rightarrow> (ws_close s 1000 ''Client disconnect'' (stopHeartbeat w1))\<lparr>ws := None\<rparr>)"
  have 3: "live (sockets w3) = live (sockets w1)" "timeouts w3 = timeouts w1"
    using ws_close_live by (simp_all add: w3_def ws_close_def perform_def split: option.splits)
  have "disconnect w = w3\<lparr>socketId := JNull, state := disconnected, eventListeners := (\<lambda>_. None)\<rparr>"
    by (simp only: disconnect_def w1_def w3_def Let_def)
  then show ?thesis
    using 1 3 by (simp add: pending_def)
qed

lemma pending_step: "pending (step e w) \<le> pending w"
proof (cases e)
  case (SocketOpen s)
  have "s < length (sockets w) \<Longrightarrow> sockets w ! s = CONNECTING \<Longrightarrow>
        live ((sockets w)[s := OPEN]) = live (sockets w)"
    using live_update_live [of s "sockets w" OPEN] by simp
  with SocketOpen show ?thesis
    by (auto simp add: pending_def readyStateOf_def split: if_splits)
next
  case (SocketMessage s m)
  then show ?thesis by (simp add: pending_def)
next
  case (SocketError s)
  then show ?thesis by (simp add: pending_def)
next
  case (SocketClose s code reason)
  show ?thesis
  proof (cases "readyStateOf w s \<noteq> None \<and> readyStateOf w s \<noteq> Some CLOSED")
    case False
    with SocketClose show ?thesis by auto
  next
    case True
    then have "Suc (live ((sockets w)[s := CLOSED])) = live (sockets w)"
      using live_update_closed [of s "sockets w"]
      by (auto simp add: readyStateOf_def split: if_splits)
    then have "Suc (pending (w\<lparr>sockets := (sockets w)[s := CLOSED]\<rparr>)) = pending w"
      by (simp add: pending_def)
    with True SocketClose pending_handleClose [of code reason "w\<lparr>sockets := (sockets w)[s := CLOSED]\<rparr>"]
    show ?thesis by simp
  qed
next
  case (TimeoutFires t throws)
  show ?thesis
  proof (cases "t \<in> set (timeouts w)")
    case False
    with TimeoutFires show ?thesis by simp
  next
    case True
    then have "Suc (pending (w\<lparr>timeouts := removeAll t (timeouts w)\<rparr>)) \<le> pending w"
      using length_removeAll_less [of t "timeouts w"] by (simp add: pending_def)
    with True TimeoutFires pending_connect [of throws "w\<lparr>timeouts := removeAll t (timeouts w)\<rparr>"]
    show ?thesis by simp
  qed
next
  case (IntervalFires h)
  then show ?thesis by (simp add: pending_def)
next
  case (CallOn ev f)
  then show ?thesis by (simp add: pending_def)
next
  case (CallOnce ev f)
  then show ?thesis by (simp add: pending_def)
next
  case (CallOff ev cbo)
  then show ?thesis by (simp add: pending_def)
next
  case (CallTrigger d)
  then show ?thesis by (simp add: pending_def)
next
  case CallDisconnect
  then show ?thesis by (simp add: disconnect_pending)
qed

lemma pending_new: "pending (KalzeChannel_new n opts throws) \<le> 1"
  using pending_connect [of throws "fresh n opts"]
  by (simp add: KalzeChannel_new_def pending_def)

lemma reachable_pending: "reachable w \<Longrightarrow> pending w \<le> 1"
proof (induction rule: reachable.induct)
  case (constructed channelName opts throws)
  show ?case by (rule pending_new)
next
  case (stepped w e)
  with pending_step [of e w] show ?case by simp
qed

lemma all_closed:
  assumes "live (sockets w) = 0"
  shows "readyStateOf w s = None \<or> readyStateOf w s = Some CLOSED"
  using assms by (auto simp add: readyStateOf_def live_zero_iff)

lemma retry_trace_trigger: "filter own_activity (trace (trigger d w)) = filter own_activity (trace w)"
  by (simp add: trigger_def perform_def split: option.splits)

lemma retry_trace_heartbeat: "filter own_activity (trace (heartbeat w)) = filter own_activity (trace w)"
  by (simp add: heartbeat_def perform_def split: option.splits)

lemma retry_trace_stopHeartbeat:
  "filter own_activity (trace (stopHeartbeat w)) = filter own_activity (trace w)"
  by (simp add: stopHeartbeat_def perform_def split: option.splits)

lemma retry_trace_disconnect:
  "filter own_activity (trace (disconnect w)) = filter own_activity (trace w)"
  by (simp add: disconnect_def Let_def ws_close_def perform_def retry_trace_stopHeartbeat
      split: option.splits)

lemma disconnect_quiet:
  assumes "pending w = 0"
  shows "sockets (disconnect w) = sockets w" and "timeouts (disconnect w) = []"
proof -
  have l: "live (sockets w) = 0" and t: "timeouts w = []"
    using assms by (simp_all add: pending_def)
  have c: "readyStateOf v s \<noteq> Some CONNECTING \<and> readyStateOf v s \<noteq> Some OPEN"
    if "sockets v = sockets w" for v s
    using all_closed [of v s] l that by auto
  show "sockets (disconnect w) = sockets w"
    using c by (simp add: disconnect_def Let_def ws_close_def perform_def split: option.splits)
  show "timeouts (disconnect w) = []"
    using t by (simp add: disconnect_def Let_def ws_close_def perform_def split: option.splits)
qed

lemma quiet_step:
  assumes "pending w = 0"
  shows "sockets (step e w) = sockets w \<and> timeouts (step e w) = []
       \<and> reconnectAttempts (step e w) = reconnectAttempts w
       \<and> filter own_activity (trace (step e w)) = filter own_activity (trace w)"
proof -
  have l: "live (sockets w) = 0" and t: "timeouts w = []"
    using assms by (simp_all add: pending_def)
  note c = all_closed [OF l]
  show ?thesis
  proof (cases e)
    case (SocketOpen s)
    with c [of s] t show ?thesis by auto
  next
    case (SocketMessage s m)
    with c [of s] t show ?thesis by auto
  next
    case (SocketError s)
    with c [of s] t show ?thesis by auto
  next
    case (SocketClose s code reason)
    with c [of s] t show ?thesis by auto
  next
    case (TimeoutFires u throws)
    with t show ?thesis by simp
  next
    case (IntervalFires h)
    with t show ?thesis by (simp add: retry_trace_heartbeat)
  next
    case (CallOn ev f)
    with t show ?thesis by simp
  next
    case (CallOnce ev f)
    with t show ?thesis by simp
  next
    case (CallOff ev cbo)
    with t show ?thesis by simp
  next
    case (CallTrigger d)
    with t show ?thesis by (simp add: retry_trace_trigger)
  next
    case CallDisconnect
    with disconnect_quiet [OF assms] show ?thesis by (simp add: retry_trace_disconnect)
  qed
qed

lemma quiet_run:
  "pending w = 0 \<Longrightarrow>
   sockets (run es w) = sockets w \<and> timeouts (run es w) = []
   \<and> reconnectAttempts (run es w) = reconnectAttempts w
   \<and> filter own_activity (trace (run es w)) = filter own_activity (trace w)"
proof (induction es arbitrary: w)
  case Nil
  then show ?case by (simp add: run_def pending_def)
next
  case (Cons e es)
  have p: "pending (step e w) = 0"
    using pending_step [of e w] Cons.prems by simp
  have r: "run (e # es) w = run es (step e w)"
    by (simp add: run_def)
  show ?case
    unfolding r using Cons.IH [OF p] quiet_step [OF Cons.prems, of e] by simp
qed

lemma handleClose_idle:
  assumes "\<not> terminal_code code" "autoReconnect (options w)"
    "maxReconnectAttempts (options w) \<le> int (reconnectAttempts w)"
  shows "reconnectAttempts (handleClose code reason w) = reconnectAttempts w"
    and "timeouts (handleClose code reason w) = timeouts w"
    and "actions (trace (handleClose code reason w)) =
           actions (trace w)
           @ (case getCloseReasonMessage code reason of
                None \<Rightarrow> []
              | Some m \<Rightarrow> [Emitted ''error'' (JObj [(''code'', JNum (int code)), (''message'', JStr m)])])
           @ (case heartbeatInterval w of None \<Rightarrow> [] | Some h \<Rightarrow> [ClearInterval h])
           @ [Emitted ''disconnected'' (JObj [(''code'', JNum (int code)), (''reason'', JStr reason)]),
              Emitted ''state:change'' (JObj [(''state'', JStr ''disconnected'')]),
              Emitted ''reconnect:failed'' (JObj [(''attempts'', JNum (int (reconnectAttempts w)))])]"
proof -
  obtain w4 where h: "handleClose code reason w = scheduleReconnect w4"
    "options w4 = options w" "reconnectAttempts w4 = reconnectAttempts w"
    "timeouts w4 = timeouts w"
    "actions (trace w4) =
       actions (trace w)
       @ (case getCloseReasonMessage code reason of
            None \<Rightarrow> []
          | Some m \<Rightarrow> [Emitted ''error'' (JObj [(''code'', JNum (int code)), (''message'', JStr m)])])
       @ (case heartbeatInterval w of None \<Rightarrow> [] | Some h \<Rightarrow> [ClearInterval h])
       @ [Emitted ''disconnected'' (JObj [(''code'', JNum (int code)), (''reason'', JStr reason)]),
          Emitted ''state:change'' (JObj [(''state'', JStr ''disconnected'')])]"
    using handleClose_head [of code reason w] assms(1) by auto
  have i: "\<not> autoReconnect (options w4) \<or> maxReconnectAttempts (options w4) \<le> int (reconnectAttempts w4)"
    using assms h by simp
  show "reconnectAttempts (handleClose code reason w) = reconnectAttempts w"
    using scheduleReconnect_idle(1) [OF i] h by simp
  show "timeouts (handleClose code reason w) = timeouts w"
    using scheduleReconnect_idle(3) [OF i] h by simp
  show "actions (trace (handleClose code reason w)) =
           actions (trace w)
           @ (case getCloseReasonMessage code reason of
                None \<Rightarrow> []
              | Some m \<Rightarrow> [Emitted ''error'' (JObj [(''code'', JNum (int code)), (''message'', JStr m)])])
           @ (case heartbeatInterval w of None \<Rightarrow> [] | Some h \<Rightarrow> [ClearInterval h])
           @ [Emitted ''disconnected'' (JObj [(''code'', JNum (int code)), (''reason'', JStr reason)]),
              Emitted ''state:change'' (JObj [(''state'', JStr ''disconnected'')]),
              Emitted ''reconnect:failed'' (JObj [(''attempts'', JNum (int (reconnectAttempts w)))])]"
    using scheduleReconnect_idle(5) [OF i] h assms(2) by simp
qed

lemma connect_throws_idle:
  assumes "state w \<noteq> connecting" "state w \<noteq> connected"
    and "isValidPublicKey (key (options w))"
    and "autoReconnect (options w)"
    and "maxReconnectAttempts (options w) \<le> int (reconnectAttempts w)"
  shows "reconnectAttempts (connect True w) = reconnectAttempts w"
    and "timeouts (connect True w) = timeouts w"
    and "sockets (connect True w) = sockets w"
    and "actions (trace (connect True w)) =
           actions (trace w)
           @ [Emitted ''state:change''
                (JObj [(''state'', JStr (if reconnectAttempts w > 0 then ''reconnecting''
                                        else ''connecting''))]),
              NewWebSocketThrew (connect_url w),
              Emitted ''error'' (JObj [(''message'', JStr ''Failed to connect'')]),
              Emitted ''reconnect:failed'' (JObj [(''attempts'', JNum (int (reconnectAttempts w)))])]"
proof -
  define w3 where
    "w3 = emit ''error'' (JObj [(''message'', JStr ''Failed to connect'')])
            (perform (NewWebSocketThrew (connect_url w))
               (emit ''state:change''
                  (JObj [(''state'', JStr (if reconnectAttempts w > 0 then ''reconnecting''
                                          else ''connecting''))])
                  (w\<lparr>state := (if reconnectAttempts w > 0 then reconnecting else connecting)\<rparr>)))"
  have c: "connect True w = scheduleReconnect w3"
    using assms(1,2,3)
    by (simp add: connect_def Let_def w3_def state_name_def connect_url_def)
  have f: "options w3 = options w" "reconnectAttempts w3 = reconnectAttempts w"
    "timeouts w3 = timeouts w" "sockets w3 = sockets w"
    "actions (trace w3) =
       actions (trace w)
       @ [Emitted ''state:change''
            (JObj [(''state'', JStr (if reconnectAttempts w > 0 then ''reconnecting''
                                    else ''connecting''))]),
          NewWebSocketThrew (connect_url w),
          Emitted ''error'' (JObj [(''message'', JStr ''Failed to connect'')])]"
    by (simp_all add: w3_def perform_def)
  have i: "\<not> autoReconnect (options w3) \<or> maxReconnectAttempts (options w3) \<le> int (reconnectAttempts w3)"
    using assms f by simp
  show "reconnectAttempts (connect True w) = reconnectAttempts w"
    using scheduleReconnect_idle(1) [OF i] c f by simp
  show "timeouts (connect True w) = timeouts w"
    using scheduleReconnect_idle(3) [OF i] c f by simp
  show "sockets (connect True w) = sockets w"
    using c f by simp
  show "actions (trace (connect True w)) =
           actions (trace w)
           @ [Emitted ''state:change''
                (JObj [(''state'', JStr (if reconnectAttempts w > 0 then ''reconnecting''
                                        else ''connecting''))]),
              NewWebSocketThrew (connect_url w),
              Emitted ''error'' (JObj [(''message'', JStr ''Failed to connect'')]),
              Emitted ''reconnect:failed'' (JObj [(''attempts'', JNum (int (reconnectAttempts w)))])]"
    using scheduleReconnect_idle(5) [OF i] c f assms(4) by simp
qed

lemma close_exhausted_quiet:
  assumes "reachable w" "readyStateOf w s \<noteq> None" "readyStateOf w s \<noteq> Some CLOSED"
    and "\<not> terminal_code code" "autoReconnect (options w)"
    and "maxReconnectAttempts (options w) \<le> int (reconnectAttempts w)"
  shows "pending (step (SocketClose s code reason) w) = 0"
proof -
  define w1 where "w1 = w\<lparr>sockets := (sockets w)[s := CLOSED]\<rparr>"
  have "Suc (live ((sockets w)[s := CLOSED])) = live (sockets w)"
    using assms(2,3) live_update_closed [of s "sockets w"]
    by (auto simp add: readyStateOf_def split: if_splits)
  then have "Suc (pending w1) = pending w"
    by (simp add: pending_def w1_def)
  with reachable_pending [OF assms(1)] have p: "pending w1 = 0"
    by simp
  have o: "\<not> terminal_code code" "autoReconnect (options w1)"
    "maxReconnectAttempts (options w1) \<le> int (reconnectAttempts w1)"
    using assms by (simp_all add: w1_def)
  have "pending (handleClose code reason w1) = pending w1"
    using handleClose_idle(2) [OF o, of reason] by (simp add: pending_def)
  with p assms(2,3) show ?thesis
    by (simp add: w1_def)
qed

lemma timer_exhausted_quiet:
  assumes "reachable w" "t \<in> set (timeouts w)"
    and "state w \<noteq> connecting" "state w \<noteq> connected"
    and "isValidPublicKey (key (options w))" "autoReconnect (options w)"
    and "maxReconnectAttempts (options w) \<le> int (reconnectAttempts w)"
  shows "pending (step (TimeoutFires t True) w) = 0"
proof -
  define w1 where "w1 = w\<lparr>timeouts := removeAll t (timeouts w)\<rparr>"
  have "Suc (pending w1) \<le> pending w"
    using length_removeAll_less [OF assms(2)] by (simp add: pending_def w1_def)
  with reachable_pending [OF assms(1)] have p: "pending w1 = 0"
    by simp
  have o: "state w1 \<noteq> connecting" "state w1 \<noteq> connected"
    "isValidPublicKey (key (options w1))" "autoReconnect (options w1)"
    "maxReconnectAttempts (options w1) \<le> int (reconnectAttempts w1)"
    using assms by (simp_all add: w1_def)
  have "pending (connect True w1) = pending w1"
    using connect_throws_idle(2,3) [OF o] by (simp add: pending_def)
  with p assms(2) show ?thesis
    by (simp add: w1_def)
qed

lemma limited_options_fields:
  "isValidPublicKey (opt_key (limited_options auto n))"
  "autoReconnect (required (limited_options auto n)) = auto"
  "maxReconnectAttempts (required (limited_options auto n)) = n"
  "reconnectDelay (required (limited_options auto n)) = 1000"
  "key (required (limited_options auto n)) = opt_key example_options"
  using valid_example_key by (simp_all add: limited_options_def required_def example_options_def)

lemma step_close_enabled:
  assumes "readyStateOf w s \<noteq> None" "readyStateOf w s \<noteq> Some CLOSED"
  shows "step (SocketClose s code reason) w =
           handleClose code reason (w\<lparr>sockets := (sockets w)[s := CLOSED]\<rparr>)"
  using assms by simp

lemma step_timer_enabled:
  assumes "t \<in> set (timeouts w)"
  shows "step (TimeoutFires t throws) w = connect throws (w\<lparr>timeouts := removeAll t (timeouts w)\<rparr>)"
  using assms by simp

lemma close_exhausted:
  assumes "reachable w" "readyStateOf w s \<noteq> None" "readyStateOf w s \<noteq> Some CLOSED"
    and "\<not> terminal_code code" "autoReconnect (options w)"
    and "maxReconnectAttempts (options w) \<le> int (reconnectAttempts w)"
  shows "actions (trace (step (SocketClose s code reason) w)) =
           actions (trace w)
           @ (case getCloseReasonMessage code reason of
                None \<Rightarrow> []
              | Some m \<Rightarrow>
                  [Emitted ''error'' (JObj [(''code'', JNum (int code)), (''message'', JStr m)])])
           @ (case heartbeatInterval w of None \<Rightarrow> [] | Some h \<Rightarrow> [ClearInterval h])
           @ [Emitted ''disconnected''
                (JObj [(''code'', JNum (int code)), (''reason'', JStr reason)]),
              Emitted ''state:change'' (JObj [(''state'', JStr ''disconnected'')]),
              Emitted ''reconnect:failed''
                (JObj [(''attempts'', JNum (int (reconnectAttempts w)))])]"
    and "reconnectAttempts (step (SocketClose s code reason) w) = reconnectAttempts w"
proof -
  define w1 where "w1 = w\<lparr>sockets := (sockets w)[s := CLOSED]\<rparr>"
  have s: "step (SocketClose s code reason) w = handleClose code reason w1"
    unfolding w1_def by (rule step_close_enabled [OF assms(2,3)])
  have f: "options w1 = options w" "reconnectAttempts w1 = reconnectAttempts w"
    "trace w1 = trace w" "heartbeatInterval w1 = heartbeatInterval w"
    by (simp_all add: w1_def)
  have o: "autoReconnect (options w1)" "maxReconnectAttempts (options w1) \<le> int (reconnectAttempts w1)"
    using assms(5,6) f by simp_all
  note h = handleClose_idle [OF assms(4) o, of reason]
  show "actions (trace (step (SocketClose s code reason) w)) =
           actions (trace w)
           @ (case getCloseReasonMessage code reason of
                None \<Rightarrow> []
              | Some m \<Rightarrow>
                  [Emitted ''error'' (JObj [(''code'', JNum (int code)), (''message'', JStr m)])])
           @ (case heartbeatInterval w of None \<Rightarrow> [] | Some h \<Rightarrow> [ClearInterval h])
           @ [Emitted ''disconnected''
                (JObj [(''code'', JNum (int code)), (''reason'', JStr reason)]),
              Emitted ''state:change'' (JObj [(''state'', JStr ''disconnected'')]),
              Emitted ''reconnect:failed''
                (JObj [(''attempts'', JNum (int (reconnectAttempts w)))])]"
    unfolding s h(3) f by (rule refl)
  show "reconnectAttempts (step (SocketClose s code reason) w) = reconnectAttempts w"
    unfolding s h(1) f by (rule refl)
qed

lemma timer_exhausted:
  assumes "reachable w" "t \<in> set (timeouts w)"
    and "state w \<noteq> connecting" "state w \<noteq> connected"
    and "isValidPublicKey (key (options w))" "autoReconnect (options w)"
    and "maxReconnectAttempts (options w) \<le> int (reconnectAttempts w)"
  shows "actions (trace (step (TimeoutFires t True) w)) =
           actions (trace w)
           @ [Emitted ''state:change''
                (JObj [(''state'', JStr (if reconnectAttempts w > 0 then ''reconnecting''
                                        else ''connecting''))]),
              NewWebSocketThrew (connect_url w),
              Emitted ''error'' (JObj [(''message'', JStr ''Failed to connect'')]),
              Emitted ''reconnect:failed''
                (JObj [(''attempts'', JNum (int (reconnectAttempts w)))])]"
    and "reconnectAttempts (step (TimeoutFires t True) w) = reconnectAttempts w"
proof -
  define w1 where "w1 = w\<lparr>timeouts := removeAll t (timeouts w)\<rparr>"
  have s: "step (TimeoutFires t True) w = connect True w1"
    unfolding w1_def by (rule step_timer_enabled [OF assms(2)])
  have f: "options w1 = options w" "reconnectAttempts w1 = reconnectAttempts w"
    "trace w1 = trace w" "state w1 = state w" "connect_url w1 = connect_url w"
    by (simp_all add: w1_def connect_url_def)
  have o: "state w1 \<noteq> connecting" "state w1 \<noteq> connected"
    "isValidPublicKey (key (options w1))" "autoReconnect (options w1)"
    "maxReconnectAttempts (options w1) \<le> int (reconnectAttempts w1)"
    using assms(3-7) f by simp_all
  note h = connect_throws_idle [OF o]
  show "actions (trace (step (TimeoutFires t True) w)) =
           actions (trace w)
           @ [Emitted ''state:change''
                (JObj [(''state'', JStr (if reconnectAttempts w > 0 then ''reconnecting''
                                        else ''connecting''))]),
              NewWebSocketThrew (connect_url w),
              Emitted ''error'' (JObj [(''message'', JStr ''Failed to connect'')]),
              Emitted ''reconnect:failed''
                (JObj [(''attempts'', JNum (int (reconnectAttempts w)))])]"
    unfolding s h(4) f by (rule refl)
  show "reconnectAttempts (step (TimeoutFires t True) w) = reconnectAttempts w"
    unfolding s h(1) f by (rule refl)
qed

lemma quiet_forever:
  assumes "pending v = 0" "reconnectAttempts v = n"
  shows "\<forall>es. sockets (run es v) = sockets v \<and> timeouts (run es v) = []
            \<and> reconnectAttempts (run es v) = n
            \<and> filter own_activity (trace (run es v)) = filter own_activity (trace v)"
  using quiet_run [OF assms(1)] assms(2) by simp

lemma handleClose_actions:
  "actions (trace (handleClose code reason w)) =
     actions (trace w)
     @ (case getCloseReasonMessage code reason of
          None \<Rightarrow> []
        | Some m \<Rightarrow> [Emitted ''error'' (JObj [(''code'', JNum (int code)), (''message'', JStr m)])])
     @ (case heartbeatInterval w of None \<Rightarrow> [] | Some h \<Rightarrow> [ClearInterval h])
     @ [Emitted ''disconnected'' (JObj [(''code'', JNum (int code)), (''reason'', JStr reason)]),
        Emitted ''state:change'' (JObj [(''state'', JStr ''disconnected'')])]
     @ (if terminal_code code \<or> \<not> autoReconnect (options w) then []
        else if maxReconnectAttempts (options w) \<le> int (reconnectAttempts w)
        then [Emitted ''reconnect:failed'' (JObj [(''attempts'', JNum (int (reconnectAttempts w)))])]
        else [Emitted ''reconnecting''
                (JObj [(''attempt'', JNum (int (reconnectAttempts w) + 1)),
                       (''delay'', times_pow2 (reconnectDelay (options w)) (reconnectAttempts w))]),
              SetTimeout (nextTimer w) (times_pow2 (reconnectDelay (options w)) (reconnectAttempts w))])"
proof -
  obtain w4 where h: "handleClose code reason w = (if terminal_code code then w4 else scheduleReconnect w4)"
    "options w4 = options w" "reconnectAttempts w4 = reconnectAttempts w"
    "nextTimer w4 = nextTimer w"
    "actions (trace w4) =
       actions (trace w)
       @ (case getCloseReasonMessage code reason of
            None \<Rightarrow> []
          | Some m \<Rightarrow> [Emitted ''error'' (JObj [(''code'', JNum (int code)), (''message'', JStr m)])])
       @ (case heartbeatInterval w of None \<Rightarrow> [] | Some h \<Rightarrow> [ClearInterval h])
       @ [Emitted ''disconnected'' (JObj [(''code'', JNum (int code)), (''reason'', JStr reason)]),
          Emitted ''state:change'' (JObj [(''state'', JStr ''disconnected'')])]"
    using handleClose_head [of code reason w] by auto
  show ?thesis
  proof (cases "terminal_code code")
    case True
    with h show ?thesis by simp
  next
    case False
    show ?thesis
    proof (cases "autoReconnect (options w4) \<and> int (reconnectAttempts w4) < maxReconnectAttempts (options w4)")
      case True
      then have "actions (trace (scheduleReconnect w4)) =
           actions (trace w4) @
           [Emitted ''reconnecting''
              (JObj [(''attempt'', JNum (int (reconnectAttempts w4) + 1)),
                     (''delay'', times_pow2 (reconnectDelay (options w4)) (reconnectAttempts w4))]),
            SetTimeout (nextTimer w4) (times_pow2 (reconnectDelay (options w4)) (reconnectAttempts w4))]"
        using scheduleReconnect_retry(5) [of w4] by simp
      with False True h show ?thesis by simp
    next
      case idle: False
      then have "actions (trace (scheduleReconnect w4)) =
           actions (trace w4) @
           (if autoReconnect (options w4)
            then [Emitted ''reconnect:failed'' (JObj [(''attempts'', JNum (int (reconnectAttempts w4)))])]
            else [])"
        using scheduleReconnect_idle(5) [of w4] by auto
      with False idle h show ?thesis by auto
    qed
  qed
qed

lemma not_terminal_1006: "\<not> terminal_code 1006"
  by (simp add: terminal_code_def)

lemma no_message_1006: "getCloseReasonMessage 1006 [] = None"
  by (simp add: getCloseReasonMessage_def)

lemma exhausted_at_close_fields:
  "reachable exhausted_at_close"
  "autoReconnect (options exhausted_at_close)"
  "maxReconnectAttempts (options exhausted_at_close) = 0"
  "reconnectAttempts exhausted_at_close = 0"
  "readyStateOf exhausted_at_close 0 = Some CONNECTING"
  "heartbeatInterval exhausted_at_close = None"
  "actions (trace exhausted_at_close) =
     [Emitted ''state:change'' (JObj [(''state'', JStr ''connecting'')]),
      NewWebSocket 0 (connect_url (fresh ''room'' (limited_options True 0)))]"
  unfolding exhausted_at_close_def
  using constructed_fields [OF limited_options_fields(1), of "''room''" True 0]
  by (simp_all add: reachable.constructed limited_options_fields readyStateOf_def)

lemma exhausted_at_timer_fields:
  "reachable exhausted_at_timer"
  "autoReconnect (options exhausted_at_timer)"
  "maxReconnectAttempts (options exhausted_at_timer) = 1"
  "reconnectAttempts exhausted_at_timer = 1"
  "timeouts exhausted_at_timer = [1]"
  "state exhausted_at_timer = disconnected"
  "isValidPublicKey (key (options exhausted_at_timer))"
proof -
  define w0 where "w0 = KalzeChannel_new ''room'' (limited_options True 1) False"
  note f = constructed_fields [OF limited_options_fields(1), of "''room''" True 1, folded w0_def]
  have e: "readyStateOf w0 0 \<noteq> None" "readyStateOf w0 0 \<noteq> Some CLOSED"
    using f by (simp_all add: readyStateOf_def)
  define w1 where "w1 = w0\<lparr>sockets := (sockets w0)[0 := CLOSED]\<rparr>"
  have s: "exhausted_at_timer = handleClose 1006 [] w1"
    unfolding exhausted_at_timer_def w0_def [symmetric] w1_def
    by (rule step_close_enabled [OF e])
  have o: "autoReconnect (options w1)" "int (reconnectAttempts w1) < maxReconnectAttempts (options w1)"
    using f by (simp_all add: w1_def limited_options_fields)
  note r = handleClose_retry [OF not_terminal_1006 o, of "[]"]
  show "reachable exhausted_at_timer"
    unfolding exhausted_at_timer_def by (rule reachable.stepped) (rule reachable.constructed)
  show "autoReconnect (options exhausted_at_timer)"
    unfolding s using f by (simp add: w1_def limited_options_fields)
  show "maxReconnectAttempts (options exhausted_at_timer) = 1"
    unfolding s using f by (simp add: w1_def limited_options_fields)
  show "reconnectAttempts exhausted_at_timer = 1"
    unfolding s r(1) using f by (simp add: w1_def)
  show "timeouts exhausted_at_timer = [1]"
    unfolding s r(3) using f by (simp add: w1_def)
  show "state exhausted_at_timer = disconnected"
    unfolding s by simp
  show "isValidPublicKey (key (options exhausted_at_timer))"
    unfolding s using f valid_example_key by (simp add: w1_def limited_options_fields)
qed

lemma opened_fields:
  "reachable opened" "state opened = connecting" "ws opened = Some 0"
  "readyStateOf opened 0 = Some OPEN"
proof -
  show "reachable opened"
    unfolding opened_def by (rule reachable.stepped) (rule reachable.constructed)
  show "state opened = connecting" "ws opened = Some 0" "readyStateOf opened 0 = Some OPEN"
    unfolding opened_def
    using constructed_fields [OF valid_example_key, of "''room''"]
    by (simp_all add: readyStateOf_def)
qed


lemma source_rejects_bad_key:
  assumes "\<not> isValidPublicKey (opt_key opts)"
  shows "KalzeChannel_new n opts throws =
           (fresh n opts)
             \<lparr>trace := [Emitted ''error''
                          (JObj [(''code'', JNum 4403),
                                 (''message'', JStr ''Invalid public API key format. Expected wpk_live_*'')])]\<rparr>"
proof -
  have k: "\<not> isValidPublicKey (key (options (fresh n opts)))"
    using assms by (simp add: required_def)
  have s: "state (fresh n opts) = disconnected \<or> state (fresh n opts) = reconnecting"
    by simp
  show ?thesis
    unfolding KalzeChannel_new_def connect_invalid_key [OF s k]
    by (simp add: emit_no_listeners perform_def)
qed

lemma bad_key_invalid: "\<not> isValidPublicKey (opt_key bad_key_options)"
  by (simp add: bad_key_options_def isValidPublicKey_def)

lemma disconnect_teardown:
  "reconnectTimeout (disconnect w) = None \<and> heartbeatInterval (disconnect w) = None
   \<and> ws (disconnect w) = None \<and> socketId (disconnect w) = JNull
   \<and> state (disconnect w) = disconnected \<and> eventListeners (disconnect w) = (\<lambda>_. None)
   \<and> timeouts (disconnect w) =
       (case reconnectTimeout w of None \<Rightarrow> timeouts w | Some t \<Rightarrow> removeAll t (timeouts w))
   \<and> intervals (disconnect w) =
       (case heartbeatInterval w of None \<Rightarrow> intervals w | Some h \<Rightarrow> removeAll h (intervals w))
   \<and> trace (disconnect w) =
       trace w
       @ (case reconnectTimeout w of None \<Rightarrow> [] | Some t \<Rightarrow> [ClearTimeout t])
       @ (case heartbeatInterval w of None \<Rightarrow> [] | Some h \<Rightarrow> [ClearInterval h])
       @ (case ws w of None \<Rightarrow> [] | Some s \<Rightarrow> [WsClose s 1000 ''Client disconnect''])"
  by (simp add: disconnect_def Let_def ws_close_def perform_def stopHeartbeat_def
      split: option.splits)

lemma entries_append [simp]: "entries (xs @ ys) = entries xs @ entries ys"
  by (induction xs rule: entries.induct) simp_all

lemma set_entries: "cb \<in> set (entries es) \<longleftrightarrow> Some cb \<in> set es"
  by (induction es rule: entries.induct) auto

lemma entries_set_delete: "entries (set_delete cb es) = removeAll cb (entries es)"
proof (induction es)
  case Nil
  then show ?case by (simp add: set_delete_def)
next
  case (Cons x es)
  then show ?case by (cases x) (auto simp add: set_delete_def)
qed

lemma distinct_entries_set_delete:
  "distinct (entries es) \<Longrightarrow> distinct (entries (set_delete cb es))"
  by (simp add: entries_set_delete distinct_removeAll)

lemma set_delete_absent: "Some cb \<notin> set es \<Longrightarrow> set_delete cb es = es"
  by (induction es) (auto simp add: set_delete_def)

lemma set_delete_gone: "Some cb \<notin> set (set_delete cb es)"
  by (auto simp add: set_delete_def)

lemma drop_set_delete: "drop n (set_delete cb es) = set_delete cb (drop n es)"
  by (simp add: set_delete_def drop_map)

lemma entries_drop_Some:
  assumes "i < length es" "es ! i = Some cb"
  shows "entries (drop i es) = cb # entries (drop (Suc i) es)"
proof -
  have "drop i es = es ! i # drop (Suc i) es"
    using assms(1) by (simp add: Cons_nth_drop_Suc)
  with assms(2) show ?thesis by simp
qed

lemma entries_drop_None:
  assumes "i < length es" "es ! i = None"
  shows "entries (drop i es) = entries (drop (Suc i) es)"
proof -
  have "drop i es = es ! i # drop (Suc i) es"
    using assms(1) by (simp add: Cons_nth_drop_Suc)
  with assms(2) show ?thesis by simp
qed

lemma later_entries_differ:
  assumes "distinct (entries es)" "i < length es" "es ! i = Some cb"
  shows "Some cb \<notin> set (drop (Suc i) es)"
proof -
  have "es = take i es @ es ! i # drop (Suc i) es"
    using assms(2) by (simp add: id_take_nth_drop [symmetric])
  then have "entries es = entries (take i es) @ cb # entries (drop (Suc i) es)"
    using assms(3) by (metis entries.simps(3) entries_append)
  with assms(1) have "cb \<notin> set (entries (drop (Suc i) es))"
    by simp
  then show ?thesis by (simp add: set_entries)
qed

lemma trace_invoke: "trace (invoke cb p w) = trace w @ [Called (target cb) p]"
  by (cases cb) (simp_all add: perform_def)

lemma setObjects_off:
  "setObjects (off ev (Some cb) w) a = setObjects w a \<or>
   setObjects (off ev (Some cb) w) a = set_delete cb (setObjects w a)"
  by (simp add: off_def Let_def split: option.splits)

lemma setObjects_invoke:
  "setObjects (invoke cb p w) a = setObjects w a \<or>
   setObjects (invoke cb p w) a = set_delete cb (setObjects w a)"
proof (cases cb)
  case (User f)
  then show ?thesis by (simp add: perform_def)
next
  case (OnceWrapper k ev f)
  then show ?thesis
    using setObjects_off [of ev cb w a] by (simp add: perform_def)
qed

lemma forEach_trace:
  "distinct (entries (setObjects w a)) \<Longrightarrow>
   trace (forEach a p i w) =
     trace w @ map (\<lambda>cb. Called (target cb) p) (entries (drop i (setObjects w a)))"
proof (induction a p i w rule: forEach.induct)
  case (1 a p i w)
  show ?case
  proof (cases "i < length (setObjects w a)")
    case False
    then show ?thesis by (simp add: forEach.simps)
  next
    case True
    show ?thesis
    proof (cases "setObjects w a ! i")
      case None
      have "trace (forEach a p i w) = trace (forEach a p (Suc i) w)"
        using True None by (simp add: forEach.simps)
      also have "\<dots> = trace w @ map (\<lambda>cb. Called (target cb) p)
                          (entries (drop (Suc i) (setObjects w a)))"
        using "1.IH"(1) [OF True None "1.prems"] .
      finally show ?thesis
        using entries_drop_None [OF True None] by simp
    next
      case (Some cb)
      define w' where "w' = invoke cb p w"
      have later: "Some cb \<notin> set (drop (Suc i) (setObjects w a))"
        using later_entries_differ [OF "1.prems" True Some] .
      have d: "distinct (entries (setObjects w' a))"
        using setObjects_invoke [of cb p w a] "1.prems"
        by (auto simp add: w'_def distinct_entries_set_delete)
      have r: "drop (Suc i) (setObjects w' a) = drop (Suc i) (setObjects w a)"
        using setObjects_invoke [of cb p w a] later
        by (auto simp add: w'_def drop_set_delete set_delete_absent)
      have "trace (forEach a p i w) = trace (forEach a p (Suc i) w')"
        using True Some by (simp add: forEach.simps w'_def)
      also have "\<dots> = trace w' @ map (\<lambda>cb. Called (target cb) p)
                          (entries (drop (Suc i) (setObjects w' a)))"
        using "1.IH"(2) [OF True Some d [unfolded w'_def]] by (simp add: w'_def)
      finally show ?thesis
        using entries_drop_Some [OF True Some] r by (simp add: w'_def trace_invoke)
    qed
  qed
qed

lemma wf_listeners_update [simp]:
  "wf_listeners (w\<lparr>state := x1\<rparr>) = wf_listeners w"
  "wf_listeners (w\<lparr>ws := x2\<rparr>) = wf_listeners w"
  "wf_listeners (w\<lparr>socketId := x3\<rparr>) = wf_listeners w"
  "wf_listeners (w\<lparr>reconnectAttempts := x4\<rparr>) = wf_listeners w"
  "wf_listeners (w\<lparr>reconnectTimeout := x5\<rparr>) = wf_listeners w"
  "wf_listeners (w\<lparr>heartbeatInterval := x6\<rparr>) = wf_listeners w"
  "wf_listeners (w\<lparr>sockets := x7\<rparr>) = wf_listeners w"
  "wf_listeners (w\<lparr>timeouts := x8\<rparr>) = wf_listeners w"
  "wf_listeners (w\<lparr>intervals := x9\<rparr>) = wf_listeners w"
  "wf_listeners (w\<lparr>nextTimer := x10\<rparr>) = wf_listeners w"
  "wf_listeners (w\<lparr>trace := x11\<rparr>) = wf_listeners w"
  "wf_listeners (w\<lparr>nextWrapper := x12\<rparr>) = wf_listeners w"
  by (simp_all add: wf_listeners_def)

lemma wf_perform [simp]: "wf_listeners (perform x w) = wf_listeners w"
  by (simp add: perform_def)

lemma wf_stopHeartbeat [simp]: "wf_listeners (stopHeartbeat w) = wf_listeners w"
  by (simp add: stopHeartbeat_def split: option.splits)

lemma wf_startHeartbeat [simp]: "wf_listeners (startHeartbeat w) = wf_listeners w"
  by (simp add: startHeartbeat_def Let_def)

lemma set_set_delete: "set (set_delete cb es) \<subseteq> insert None (set es)"
  by (auto simp add: set_delete_def)

lemma wf_off: "wf_listeners w \<Longrightarrow> wf_listeners (off ev cbo w)"
proof (cases cbo)
  case None
  assume "wf_listeners w"
  with None show ?thesis
    by (auto simp add: off_def wf_listeners_def)
next
  case (Some cb)
  assume wf: "wf_listeners w"
  show ?thesis
  proof (cases "eventListeners w ev")
    case None
    with Some wf show ?thesis by (simp add: off_def)
  next
    case a: (Some a)
    define w1 where "w1 = w\<lparr>setObjects := (setObjects w)(a := set_delete cb (setObjects w a))\<rparr>"
    have 1: "wf_listeners w1"
      unfolding wf_listeners_def
    proof (intro allI impI)
      fix e b
      assume m: "eventListeners w1 e = Some b"
      then have m': "eventListeners w e = Some b"
        by (simp add: w1_def)
      note h = wf [unfolded wf_listeners_def, rule_format, OF m']
      show "b < nextSet w1 \<and> distinct (entries (setObjects w1 b)) \<and>
            (\<forall>k e' f. Some (OnceWrapper k e' f) \<in> set (setObjects w1 b) \<longrightarrow> e' = e) \<and>
            (\<forall>e'. eventListeners w1 e' = Some b \<longrightarrow> e' = e)"
        using h set_set_delete [of cb "setObjects w a"]
        by (auto simp add: w1_def distinct_entries_set_delete)
    qed
    have 2: "wf_listeners (w1\<lparr>eventListeners := (eventListeners w1)(ev := None)\<rparr>)"
      using 1 by (auto simp add: wf_listeners_def)
    have "off ev cbo w =
            (if set_size (setObjects w1 a) = 0
             then w1\<lparr>eventListeners := (eventListeners w1)(ev := None)\<rparr> else w1)"
      using Some a by (simp add: off_def Let_def w1_def)
    with 1 2 show ?thesis by simp
  qed
qed

lemma wf_invoke: "wf_listeners w \<Longrightarrow> wf_listeners (invoke cb p w)"
  by (cases cb) (simp_all add: wf_off)

lemma wf_forEach: "wf_listeners w \<Longrightarrow> wf_listeners (forEach a p i w)"
proof (induction a p i w rule: forEach.induct)
  case (1 a p i w)
  show ?case
  proof (cases "i < length (setObjects w a)")
    case False
    with "1.prems" show ?thesis by (simp add: forEach.simps)
  next
    case True
    show ?thesis
    proof (cases "setObjects w a ! i")
      case None
      with True "1.IH"(1) "1.prems" show ?thesis by (simp add: forEach.simps)
    next
      case (Some cb)
      with True "1.IH"(2) wf_invoke [OF "1.prems"] show ?thesis by (simp add: forEach.simps)
    qed
  qed
qed

lemma wf_emit: "wf_listeners w \<Longrightarrow> wf_listeners (emit ev d w)"
  by (simp add: emit_def Let_def wf_forEach split: option.splits)

lemma set_set_add: "set (set_add cb es) = insert (Some cb) (set es)"
  by (auto simp add: set_add_def)

lemma distinct_entries_set_add: "distinct (entries es) \<Longrightarrow> distinct (entries (set_add cb es))"
  by (simp add: set_add_def set_entries)

lemma wf_listenersI:
  assumes "\<And>ev a. eventListeners w ev = Some a \<Longrightarrow> a < nextSet w"
    and "\<And>ev a. eventListeners w ev = Some a \<Longrightarrow> distinct (entries (setObjects w a))"
    and "\<And>ev a k e f. eventListeners w ev = Some a \<Longrightarrow>
           Some (OnceWrapper k e f) \<in> set (setObjects w a) \<Longrightarrow> e = ev"
    and "\<And>ev a e'. eventListeners w ev = Some a \<Longrightarrow> eventListeners w e' = Some a \<Longrightarrow> e' = ev"
  shows "wf_listeners w"
  unfolding wf_listeners_def using assms by blast

lemma wf_listenersD:
  assumes "wf_listeners w" "eventListeners w ev = Some a"
  shows "a < nextSet w" and "distinct (entries (setObjects w a))"
    and "Some (OnceWrapper k e f) \<in> set (setObjects w a) \<Longrightarrow> e = ev"
    and "eventListeners w e' = Some a \<Longrightarrow> e' = ev"
  using assms unfolding wf_listeners_def by blast+

lemma wf_on:
  assumes wf: "wf_listeners w" and cb: "\<And>k e f. cb = OnceWrapper k e f \<Longrightarrow> e = ev"
  shows "wf_listeners (on ev cb w)"
proof (cases "eventListeners w ev")
  case (Some a)
  define w' where "w' = w\<lparr>setObjects := (setObjects w)(a := set_add cb (setObjects w a))\<rparr>"
  have eq: "on ev cb w = w'"
    using Some by (simp add: on_def w'_def)
  have E: "eventListeners w' = eventListeners w" and N: "nextSet w' = nextSet w"
    and Sa: "setObjects w' a = set_add cb (setObjects w a)"
    and So: "\<And>b. b \<noteq> a \<Longrightarrow> setObjects w' b = setObjects w b"
    by (simp_all add: w'_def)
  have "wf_listeners w'"
  proof (rule wf_listenersI)
    fix e b
    assume "eventListeners w' e = Some b"
    then have m: "eventListeners w e = Some b" by (simp add: E)
    show "b < nextSet w'"
      using wf_listenersD(1) [OF wf m] by (simp add: N)
    show "distinct (entries (setObjects w' b))"
    proof (cases "b = a")
      case True
      then show ?thesis
        using wf_listenersD(2) [OF wf m] by (simp add: Sa distinct_entries_set_add)
    next
      case False
      then show ?thesis
        using wf_listenersD(2) [OF wf m] by (simp add: So)
    qed
  next
    fix e b k e' f
    assume "eventListeners w' e = Some b"
    then have m: "eventListeners w e = Some b" by (simp add: E)
    assume i: "Some (OnceWrapper k e' f) \<in> set (setObjects w' b)"
    show "e' = e"
    proof (cases "b = a")
      case True
      then have ev: "e = ev"
        using wf_listenersD(4) [OF wf Some, of e] m by simp
      from i True have "OnceWrapper k e' f = cb \<or> Some (OnceWrapper k e' f) \<in> set (setObjects w a)"
        by (auto simp add: Sa set_set_add)
      then show ?thesis
      proof
        assume "OnceWrapper k e' f = cb"
        then show ?thesis using cb [of k e' f] ev by simp
      next
        assume "Some (OnceWrapper k e' f) \<in> set (setObjects w a)"
        then show ?thesis using wf_listenersD(3) [OF wf Some] ev by simp
      qed
    next
      case False
      with i have "Some (OnceWrapper k e' f) \<in> set (setObjects w b)"
        by (simp add: So)
      then show ?thesis using wf_listenersD(3) [OF wf m] by simp
    qed
  next
    fix e b e'
    assume "eventListeners w' e = Some b" "eventListeners w' e' = Some b"
    then show "e' = e"
      using wf_listenersD(4) [OF wf, of e b e'] by (simp add: E)
  qed
  with eq show ?thesis by simp
next
  case None
  define a where "a = nextSet w"
  define w' where
    "w' = w\<lparr>eventListeners := (eventListeners w)(ev \<mapsto> a),
            setObjects := (setObjects w)(a := [Some cb]),
            nextSet := Suc a\<rparr>"
  have eq: "on ev cb w = w'"
    using None by (simp add: on_def a_def w'_def set_add_def)
  have Eev: "eventListeners w' ev = Some a"
    and Eo: "\<And>e. e \<noteq> ev \<Longrightarrow> eventListeners w' e = eventListeners w e"
    and N: "nextSet w' = Suc a"
    and Sa: "setObjects w' a = [Some cb]"
    and So: "\<And>b. b \<noteq> a \<Longrightarrow> setObjects w' b = setObjects w b"
    by (simp_all add: w'_def)
  have fresh: "eventListeners w e \<noteq> Some a" for e
    using wf_listenersD(1) [OF wf, of e a] by (auto simp add: a_def)
  have old: "eventListeners w e = Some b \<and> b \<noteq> a" if "eventListeners w' e = Some b" "e \<noteq> ev" for e b
    using that Eo [of e] fresh [of e] by auto
  have new: "b = a" if "eventListeners w' ev = Some b" for b
    using that Eev by simp
  have "wf_listeners w'"
  proof (rule wf_listenersI)
    fix e b
    assume m: "eventListeners w' e = Some b"
    show "b < nextSet w'"
    proof (cases "e = ev")
      case True
      with m new show ?thesis by (simp add: N)
    next
      case False
      then show ?thesis
        using wf_listenersD(1) [of w e b] wf old [OF m] by (simp add: N a_def)
    qed
    show "distinct (entries (setObjects w' b))"
    proof (cases "e = ev")
      case True
      with m new show ?thesis by (simp add: Sa)
    next
      case False
      then show ?thesis
        using wf_listenersD(2) [of w e b] wf old [OF m] by (simp add: So)
    qed
  next
    fix e b k e' f
    assume m: "eventListeners w' e = Some b"
      and i: "Some (OnceWrapper k e' f) \<in> set (setObjects w' b)"
    show "e' = e"
    proof (cases "e = ev")
      case True
      with m new have "b = a" by simp
      with i have "OnceWrapper k e' f = cb" by (simp add: Sa)
      then show ?thesis using cb [of k e' f] True by simp
    next
      case False
      note o = old [OF m False]
      with i have "Some (OnceWrapper k e' f) \<in> set (setObjects w b)"
        by (simp add: So)
      then show ?thesis using wf_listenersD(3) [of w e b] wf o by simp
    qed
  next
    fix e b e'
    assume m: "eventListeners w' e = Some b" and m': "eventListeners w' e' = Some b"
    show "e' = e"
    proof (cases "e = ev")
      case True
      with m new have b: "b = a" by simp
      show ?thesis
      proof (cases "e' = ev")
        case True
        with \<open>e = ev\<close> show ?thesis by simp
      next
        case False
        from old [OF m' False] b show ?thesis by simp
      qed
    next
      case False
      note o = old [OF m False]
      show ?thesis
      proof (cases "e' = ev")
        case True
        with m' new o show ?thesis by simp
      next
        case e': False
        from old [OF m' e'] o show ?thesis
          using wf_listenersD(4) [of w e b e'] wf by simp
      qed
    qed
  qed
  with eq show ?thesis by simp
qed

lemma wf_once: "wf_listeners w \<Longrightarrow> wf_listeners (once ev f w)"
  unfolding once_def by (rule wf_on) simp_all

lemma wf_scheduleReconnect: "wf_listeners w \<Longrightarrow> wf_listeners (scheduleReconnect w)"
  by (simp add: scheduleReconnect_def Let_def wf_emit)

lemma wf_connect: "wf_listeners w \<Longrightarrow> wf_listeners (connect throws w)"
  by (simp add: connect_def Let_def wf_emit wf_scheduleReconnect)

lemma wf_handleConnectionEstablished:
  "wf_listeners w \<Longrightarrow> wf_listeners (handleConnectionEstablished d w)"
  by (simp add: handleConnectionEstablished_def Let_def wf_emit split: option.splits)

lemma wf_handleMessage: "wf_listeners w \<Longrightarrow> wf_listeners (handleMessage m w)"
  by (simp add: handleMessage_def wf_emit wf_handleConnectionEstablished split: option.splits)

lemma wf_handleClose: "wf_listeners w \<Longrightarrow> wf_listeners (handleClose code reason w)"
  by (simp add: handleClose_def Let_def wf_emit wf_scheduleReconnect split: option.splits)

lemma wf_disconnect: "wf_listeners (disconnect w)"
  by (simp add: wf_listeners_def)

lemma wf_trigger: "wf_listeners w \<Longrightarrow> wf_listeners (trigger d w)"
  by (simp add: trigger_def split: option.splits)

lemma wf_heartbeat: "wf_listeners w \<Longrightarrow> wf_listeners (heartbeat w)"
  by (simp add: heartbeat_def split: option.splits)

lemma wf_on_user: "wf_listeners w \<Longrightarrow> wf_listeners (on ev (User f) w)"
  by (rule wf_on) simp_all

lemma wf_step: "wf_listeners w \<Longrightarrow> wf_listeners (step e w)"
  by (cases e)
    (simp_all add: wf_handleMessage wf_emit wf_handleClose wf_connect wf_heartbeat wf_on_user
      wf_once wf_off wf_trigger wf_disconnect)

lemma wf_fresh: "wf_listeners (fresh n opts)"
  by (simp add: wf_listeners_def)

lemma reachable_wf: "reachable w \<Longrightarrow> wf_listeners w"
proof (induction rule: reachable.induct)
  case (constructed channelName opts throws)
  show ?case
    unfolding KalzeChannel_new_def by (rule wf_connect) (rule wf_fresh)
next
  case (stepped w e)
  from stepped.IH show ?case by (rule wf_step)
qed

lemma off_frame:
  assumes "eventListeners w ev = Some a \<or> eventListeners w ev = None"
  shows "b \<noteq> a \<Longrightarrow> setObjects (off ev (Some cb) w) b = setObjects w b"
    and "e \<noteq> ev \<Longrightarrow> eventListeners (off ev (Some cb) w) e = eventListeners w e"
    and "eventListeners (off ev (Some cb) w) ev = Some a \<or> eventListeners (off ev (Some cb) w) ev = None"
    and "set (setObjects (off ev (Some cb) w) a) \<subseteq> insert None (set (setObjects w a))"
  using assms set_set_delete [of cb "setObjects w a"]
  by (auto simp add: off_def Let_def split: option.splits)

lemma invoke_frame:
  assumes "loop_ok ev a w" "Some cb \<in> set (setObjects w a)"
  shows "b \<noteq> a \<Longrightarrow> setObjects (invoke cb p w) b = setObjects w b"
    and "e \<noteq> ev \<Longrightarrow> eventListeners (invoke cb p w) e = eventListeners w e"
    and "loop_ok ev a (invoke cb p w)"
proof -
  have l: "eventListeners w ev = Some a \<or> eventListeners w ev = None"
    using assms(1) by (simp add: loop_ok_def)
  show "b \<noteq> a \<Longrightarrow> setObjects (invoke cb p w) b = setObjects w b"
  proof (cases cb)
    case (User f)
    then show ?thesis by (simp add: perform_def)
  next
    case (OnceWrapper k e' f)
    assume b: "b \<noteq> a"
    from OnceWrapper assms have "e' = ev" by (auto simp add: loop_ok_def)
    with OnceWrapper off_frame(1) [OF l b, of cb] show ?thesis by (simp add: perform_def)
  qed
  show "e \<noteq> ev \<Longrightarrow> eventListeners (invoke cb p w) e = eventListeners w e"
  proof (cases cb)
    case (User f)
    then show ?thesis by (simp add: perform_def)
  next
    case (OnceWrapper k e' f)
    assume e: "e \<noteq> ev"
    from OnceWrapper assms have "e' = ev" by (auto simp add: loop_ok_def)
    with OnceWrapper off_frame(2) [OF l e, of cb] show ?thesis by (simp add: perform_def)
  qed
  show "loop_ok ev a (invoke cb p w)"
  proof (cases cb)
    case (User f)
    with assms(1) show ?thesis by (simp add: perform_def loop_ok_def)
  next
    case (OnceWrapper k e' f)
    from OnceWrapper assms have e': "e' = ev" by (auto simp add: loop_ok_def)
    have "loop_ok ev a (off ev (Some cb) w)"
      unfolding loop_ok_def
      using off_frame(3) [OF l, of cb] off_frame(4) [OF l, of cb] assms(1)
      by (auto simp add: loop_ok_def)
    with OnceWrapper e' show ?thesis by (simp add: perform_def loop_ok_def)
  qed
qed

lemma forEach_frame:
  "loop_ok ev a w \<Longrightarrow>
   (b \<noteq> a \<longrightarrow> setObjects (forEach a p i w) b = setObjects w b) \<and>
   (e \<noteq> ev \<longrightarrow> eventListeners (forEach a p i w) e = eventListeners w e)"
proof (induction a p i w rule: forEach.induct)
  case (1 a p i w)
  show ?case
  proof (cases "i < length (setObjects w a)")
    case False
    then show ?thesis by (simp add: forEach.simps)
  next
    case True
    show ?thesis
    proof (cases "setObjects w a ! i")
      case None
      with True "1.IH"(1) "1.prems" show ?thesis by (simp add: forEach.simps)
    next
      case (Some cb)
      have m: "Some cb \<in> set (setObjects w a)"
        using True Some by (metis nth_mem)
      note f = invoke_frame [OF "1.prems" m, where p = p]
      have "forEach a p i w = forEach a p (Suc i) (invoke cb p w)"
        using True Some by (simp add: forEach.simps)
      with "1.IH"(2) [OF True Some f(3)] f(1) [of b] f(2) [of e] show ?thesis by simp
    qed
  qed
qed

lemma wf_loop_ok:
  assumes "wf_listeners w" "eventListeners w ev = Some a"
  shows "loop_ok ev a w"
  unfolding loop_ok_def using assms wf_listenersD(3) [OF assms] by blast

lemma emit_trace:
  assumes wf: "wf_listeners w" and ev: "ev \<noteq> ''*''"
  shows "trace (emit ev d w) =
           trace w @ Emitted ev d
           # map (\<lambda>cb. Called (target cb) d) (listeners w ev)
           @ map (\<lambda>cb. Called (target cb) (JObj [(''event'', JStr ev), (''data'', d)]))
               (listeners w ''*'')"
proof -
  define w0 where "w0 = perform (Emitted ev d) w"
  define w1 where "w1 = (case eventListeners w0 ev of None \<Rightarrow> w0 | Some a \<Rightarrow> forEach a d 0 w0)"
  have f0: "eventListeners w0 = eventListeners w" "setObjects w0 = setObjects w"
    "trace w0 = trace w @ [Emitted ev d]" "wf_listeners w0"
    using wf by (simp_all add: w0_def perform_def)
  have t1: "trace w1 = trace w @ Emitted ev d # map (\<lambda>cb. Called (target cb) d) (listeners w ev)"
    and s1: "eventListeners w1 ''*'' = eventListeners w ''*''"
    and o1: "\<And>b. eventListeners w ''*'' = Some b \<Longrightarrow> setObjects w1 b = setObjects w b"
  proof -
    show "trace w1 = trace w @ Emitted ev d # map (\<lambda>cb. Called (target cb) d) (listeners w ev)"
    proof (cases "eventListeners w ev")
      case None
      then show ?thesis by (simp add: w1_def f0 listeners_def)
    next
      case (Some a)
      have "distinct (entries (setObjects w0 a))"
        using wf_listenersD(2) [OF wf Some] by (simp add: f0)
      from forEach_trace [OF this, of d 0] Some show ?thesis
        by (simp add: w1_def f0 listeners_def)
    qed
    show "eventListeners w1 ''*'' = eventListeners w ''*''"
    proof (cases "eventListeners w ev")
      case None
      then show ?thesis by (simp add: w1_def f0)
    next
      case (Some a)
      have "loop_ok ev a w0"
        using wf_loop_ok [OF f0(4), of ev a] Some by (simp add: f0)
      from forEach_frame [OF this, of _ d 0 "''*''"] ev Some show ?thesis
        by (simp add: w1_def f0)
    qed
    show "setObjects w1 b = setObjects w b" if b: "eventListeners w ''*'' = Some b" for b
    proof (cases "eventListeners w ev")
      case None
      then show ?thesis by (simp add: w1_def f0)
    next
      case (Some a)
      have "b \<noteq> a"
        using wf_listenersD(4) [OF wf Some, of "''*''"] b ev by auto
      moreover have "loop_ok ev a w0"
        using wf_loop_ok [OF f0(4), of ev a] Some by (simp add: f0)
      ultimately show ?thesis
        using forEach_frame [of ev a w0 b d 0] Some by (simp add: w1_def f0)
    qed
  qed
  have e: "emit ev d w =
             (case eventListeners w1 ''*'' of
                None \<Rightarrow> w1
              | Some a \<Rightarrow> forEach a (JObj [(''event'', JStr ev), (''data'', d)]) 0 w1)"
    by (simp only: emit_def Let_def w0_def w1_def)
  show ?thesis
  proof (cases "eventListeners w ''*''")
    case None
    with e s1 t1 show ?thesis by (simp add: listeners_def)
  next
    case (Some b)
    have "distinct (entries (setObjects w1 b))"
      using wf_listenersD(2) [OF wf Some] o1 [OF Some] by simp
    from forEach_trace [OF this, of "JObj [(''event'', JStr ev), (''data'', d)]" 0]
    show ?thesis
      using e s1 t1 Some o1 [OF Some] by (simp add: listeners_def)
  qed
qed

lemma wrapper_unsubscribed:
  "OnceWrapper k ev f \<notin> set (listeners (off ev (Some (OnceWrapper k ev f)) w) ev)"
  using set_delete_gone [of "OnceWrapper k ev f"]
  by (auto simp add: listeners_def off_def Let_def set_entries split: option.splits)

lemma untouched_listeners:
  assumes "eventListeners w = (\<lambda>_. None)"
  shows "eventListeners (emit ev d w) = (\<lambda>_. None)"
    and "setObjects (emit ev d w) = setObjects w"
  using assms by (simp_all add: emit_no_listeners perform_def)

lemma constructed_listeners:
  "eventListeners (KalzeChannel_new n opts False) = (\<lambda>_. None)"
  "setObjects (KalzeChannel_new n opts False) = (\<lambda>_. [])"
  "nextSet (KalzeChannel_new n opts False) = 0"
  "nextWrapper (KalzeChannel_new n opts False) = 0"
  by (simp_all add: KalzeChannel_new_def connect_def Let_def perform_def untouched_listeners fresh_def)

lemma subscribed_fields:
  "reachable subscribed"
  "listeners subscribed ''message'' = [User 1, OnceWrapper 0 ''message'' 2, User 3]"
  "listeners subscribed ''*'' = [User 4]"
proof -
  have "reachable (run es (KalzeChannel_new ''room'' example_options False))" for es
  proof (induction es rule: rev_induct)
    case Nil
    show ?case by (simp add: run_def reachable.constructed)
  next
    case (snoc e es)
    then show ?case by (simp add: run_def reachable.stepped)
  qed
  then show "reachable subscribed"
    by (simp add: subscribed_def)
  show "listeners subscribed ''message'' = [User 1, OnceWrapper 0 ''message'' 2, User 3]"
    by (simp add: subscribed_def run_def listeners_def on_def once_def Let_def set_add_def
        constructed_listeners)
  show "listeners subscribed ''*'' = [User 4]"
    by (simp add: subscribed_def run_def listeners_def on_def once_def Let_def set_add_def
        constructed_listeners)
qed

section \<open>The claims\<close>

text \<open>
  C1. A close with a code of the terminal set schedules no reconnect. The terminal set is
  the seven codes the close handler tests: 4000, 4001, 4002, 4401, 4403, 4408, 4999. The
  TypeScript source does so (\<open>handleClose_terminal\<close>: the attempt counter, the reconnect
  timer and the pending timers stay as they were, and the only events are the error,
  disconnected and state-change events). The built module does not: on the codes 4401,
  4403 and 4408 its close handler reconnects. Here the server refuses a freshly
  constructed connector with 4401 and no reason: the built module counts attempt 1, emits
  reconnecting and arranges a reconnect after 1000, where the source arranges nothing.
\<close>

theorem dist_reconnects_after_terminal_close:
  "terminal_code 4401
   \<and> reconnectAttempts (handleClose_dist 4401 [] (KalzeChannel_new_dist ''room'' example_options False)) = 1
   \<and> timeouts (handleClose_dist 4401 [] (KalzeChannel_new_dist ''room'' example_options False)) = [1]
   \<and> actions (trace (handleClose_dist 4401 [] (KalzeChannel_new_dist ''room'' example_options False))) =
       [Emitted ''state:change'' (JObj [(''state'', JStr ''connecting'')]),
        NewWebSocket 0 (connect_url (fresh ''room'' example_options)),
        Emitted ''disconnected'' (JObj [(''code'', JNum 4401), (''reason'', JStr [])]),
        Emitted ''state:change'' (JObj [(''state'', JStr ''disconnected'')]),
        Emitted ''reconnecting'' (JObj [(''attempt'', JNum 1), (''delay'', JNum 1000)]),
        SetTimeout 1 (JNum 1000)]
   \<and> reconnectAttempts (handleClose 4401 [] (KalzeChannel_new ''room'' example_options False)) = 0
   \<and> timeouts (handleClose 4401 [] (KalzeChannel_new ''room'' example_options False)) = []
   \<and> actions (trace (handleClose 4401 [] (KalzeChannel_new ''room'' example_options False))) =
       [Emitted ''state:change'' (JObj [(''state'', JStr ''connecting'')]),
        NewWebSocket 0 (connect_url (fresh ''room'' example_options)),
        Emitted ''error''
          (JObj [(''code'', JNum 4401), (''message'', JStr ''Missing API key (?key=...)'')]),
        Emitted ''disconnected'' (JObj [(''code'', JNum 4401), (''reason'', JStr [])]),
        Emitted ''state:change'' (JObj [(''state'', JStr ''disconnected'')])]"
proof -
  define w where "w = KalzeChannel_new_dist ''room'' example_options False"
  have s: "state (fresh ''room'' example_options) = disconnected \<or>
           state (fresh ''room'' example_options) = reconnecting"
    by simp
  note c = connect_dist_opens [OF s]
  have f: "options w = required example_options" "reconnectAttempts w = 0"
    "timeouts w = []" "nextTimer w = 1" "heartbeatInterval w = None"
    "actions (trace w) =
       [Emitted ''state:change'' (JObj [(''state'', JStr ''connecting'')]),
        NewWebSocket 0 (connect_url (fresh ''room'' example_options))]"
    unfolding w_def KalzeChannel_new_dist_def
    using c by simp_all
  have n: "(4401::nat) \<notin> {4000, 4001, 4002, 4999}"
    by simp
  have a: "autoReconnect (options w)" "int (reconnectAttempts w) < maxReconnectAttempts (options w)"
    using f required_example_options by simp_all
  note r = handleClose_dist_retry [OF n a, of "[]"]
  have t: "terminal_code 4401"
    by (simp add: terminal_code_def)
  have m: "getCloseReasonMessage 4401 [] = Some ''Missing API key (?key=...)''"
    by (simp add: getCloseReasonMessage_def)
  note g = constructed_fields [OF valid_example_key, of "''room''"]
  note h = handleClose_terminal [OF t, of "[]" "KalzeChannel_new ''room'' example_options False"]
  have dist: "reconnectAttempts (handleClose_dist 4401 [] w) = 1"
    "timeouts (handleClose_dist 4401 [] w) = [1]"
    "actions (trace (handleClose_dist 4401 [] w)) =
       [Emitted ''state:change'' (JObj [(''state'', JStr ''connecting'')]),
        NewWebSocket 0 (connect_url (fresh ''room'' example_options)),
        Emitted ''disconnected'' (JObj [(''code'', JNum 4401), (''reason'', JStr [])]),
        Emitted ''state:change'' (JObj [(''state'', JStr ''disconnected'')]),
        Emitted ''reconnecting'' (JObj [(''attempt'', JNum 1), (''delay'', JNum 1000)]),
        SetTimeout 1 (JNum 1000)]"
    using r f required_example_options by simp_all
  have src: "reconnectAttempts (handleClose 4401 [] (KalzeChannel_new ''room'' example_options False)) = 0"
    "timeouts (handleClose 4401 [] (KalzeChannel_new ''room'' example_options False)) = []"
    "actions (trace (handleClose 4401 [] (KalzeChannel_new ''room'' example_options False))) =
       [Emitted ''state:change'' (JObj [(''state'', JStr ''connecting'')]),
        NewWebSocket 0 (connect_url (fresh ''room'' example_options)),
        Emitted ''error''
          (JObj [(''code'', JNum 4401), (''message'', JStr ''Missing API key (?key=...)'')]),
        Emitted ''disconnected'' (JObj [(''code'', JNum 4401), (''reason'', JStr [])]),
        Emitted ''state:change'' (JObj [(''state'', JStr ''disconnected'')])]"
    using h g m by simp_all
  from t dist [unfolded w_def] src show ?thesis
    by (intro conjI)
qed

text \<open>
  C2. \<open>disconnect()\<close> clears both timers, the transport handle and the session
  identifier, sets the state to disconnected, clears the subscriptions and emits nothing
  (\<open>disconnect_teardown\<close>). It does not silence the connector: the close handler stays
  installed on the socket that \<open>disconnect\<close> closes with code 1000, and 1000 is not
  among the codes on which \<open>handleClose\<close> refrains from reconnecting. In the run below an
  established connector is disconnected; its own socket then delivers its close event,
  \<open>handleClose\<close> schedules a reconnect, and the timer opens a second socket.
\<close>
theorem reconnects_after_disconnect:
  "trace (run [SocketOpen 0,
               SocketMessage 0 (Some \<lparr>event = ''connection:established'',
                                       data = JObj [(''socketId'', JStr ''s1'')]\<rparr>),
               CallDisconnect,
               SocketClose 0 1000 ''Client disconnect'',
               TimeoutFires 2 False]
          (KalzeChannel_new ''room'' example_options False)) =
     [Emitted ''state:change'' (JObj [(''state'', JStr ''connecting'')]),
      NewWebSocket 0 (connect_url (fresh ''room'' example_options)),
      SetInterval 1 25000,
      Emitted ''connected'' (JObj [(''socketId'', JStr ''s1'')]),
      Emitted ''state:change'' (JObj [(''state'', JStr ''connected'')]),
      ClearInterval 1,
      WsClose 0 1000 ''Client disconnect'',
      Emitted ''error'' (JObj [(''code'', JNum 1000), (''message'', JStr ''Client disconnect'')]),
      Emitted ''disconnected'' (JObj [(''code'', JNum 1000), (''reason'', JStr ''Client disconnect'')]),
      Emitted ''state:change'' (JObj [(''state'', JStr ''disconnected'')]),
      Emitted ''reconnecting'' (JObj [(''attempt'', JNum 1), (''delay'', JNum 1000)]),
      SetTimeout 2 (JNum 1000),
      Emitted ''state:change'' (JObj [(''state'', JStr ''reconnecting'')]),
      NewWebSocket 1 (connect_url (fresh ''room'' example_options))]"
  by code_simp

text \<open>
  C3. On a close with a code outside the terminal set, with auto-reconnect on and the
  attempt counter below the maximum, the counter is incremented and exactly one reconnect is
  scheduled, after \<open>reconnectDelay * 2 ^ (attempt - 1)\<close> for the new attempt number; the
  reconnecting event carries the attempt and the delay. With the base delay 1000 the
  attempts 1, 2, 3 wait 1000, 2000, 4000. The delay is this product wherever the
  arithmetic of the language computes it exactly: the base delay an integer up to
  \<open>2^53\<close> in magnitude (each of them is a number of the language), fewer than 1024
  earlier attempts, and the product below \<open>2^1024\<close>; beyond that the delay is what
  \<open>times_pow2\<close> says. The scheduled timer is the reconnect: when it fires,
  \<open>connect\<close> runs, announces the state reconnecting and opens the next socket.
\<close>
theorem reconnect_backoff:
  assumes "autoReconnect (options w)"
    and "int (reconnectAttempts w) < maxReconnectAttempts (options w)"
    and "\<not> terminal_code code"
    and "\<bar>reconnectDelay (options w)\<bar> \<le> 2 ^ 53"
    and "reconnectAttempts w < 1024"
    and "\<bar>reconnectDelay (options w)\<bar> * 2 ^ reconnectAttempts w < 2 ^ 1024"
  shows "reconnectAttempts (handleClose code reason w) = reconnectAttempts w + 1
       \<and> actions (trace (handleClose code reason w)) =
           actions (trace w)
           @ (case getCloseReasonMessage code reason of
                None \<Rightarrow> []
              | Some m \<Rightarrow> [Emitted ''error'' (JObj [(''code'', JNum (int code)), (''message'', JStr m)])])
           @ (case heartbeatInterval w of None \<Rightarrow> [] | Some h \<Rightarrow> [ClearInterval h])
           @ [Emitted ''disconnected'' (JObj [(''code'', JNum (int code)), (''reason'', JStr reason)]),
              Emitted ''state:change'' (JObj [(''state'', JStr ''disconnected'')]),
              Emitted ''reconnecting''
                (JObj [(''attempt'', JNum (int (reconnectAttempts (handleClose code reason w)))),
                       (''delay'', JNum (reconnectDelay (options w) *
                                         2 ^ (reconnectAttempts (handleClose code reason w) - 1)))]),
              SetTimeout (nextTimer w)
                (JNum (reconnectDelay (options w) *
                       2 ^ (reconnectAttempts (handleClose code reason w) - 1)))]
       \<and> timeouts (handleClose code reason w) = timeouts w @ [nextTimer w]
       \<and> reconnectTimeout (handleClose code reason w) = Some (nextTimer w)
       \<and> reconnectAttempts (scheduleReconnect w) = reconnectAttempts w + 1
       \<and> actions (trace (scheduleReconnect w)) =
           actions (trace w)
           @ [Emitted ''reconnecting''
                (JObj [(''attempt'', JNum (int (reconnectAttempts (scheduleReconnect w)))),
                       (''delay'', JNum (reconnectDelay (options w) *
                                         2 ^ (reconnectAttempts (scheduleReconnect w) - 1)))]),
              SetTimeout (nextTimer w)
                (JNum (reconnectDelay (options w) *
                       2 ^ (reconnectAttempts (scheduleReconnect w) - 1)))]
       \<and> timeouts (scheduleReconnect w) = timeouts w @ [nextTimer w]
       \<and> (reconnectDelay (options w) = 1000 \<and> reconnectAttempts w = 0 \<longrightarrow>
            actions (trace (scheduleReconnect w)) =
              actions (trace w)
              @ [Emitted ''reconnecting'' (JObj [(''attempt'', JNum 1), (''delay'', JNum 1000)]),
                 SetTimeout (nextTimer w) (JNum 1000)])
       \<and> (reconnectDelay (options w) = 1000 \<and> reconnectAttempts w = 1 \<longrightarrow>
            actions (trace (scheduleReconnect w)) =
              actions (trace w)
              @ [Emitted ''reconnecting'' (JObj [(''attempt'', JNum 2), (''delay'', JNum 2000)]),
                 SetTimeout (nextTimer w) (JNum 2000)])
       \<and> (reconnectDelay (options w) = 1000 \<and> reconnectAttempts w = 2 \<longrightarrow>
            actions (trace (scheduleReconnect w)) =
              actions (trace w)
              @ [Emitted ''reconnecting'' (JObj [(''attempt'', JNum 3), (''delay'', JNum 4000)]),
                 SetTimeout (nextTimer w) (JNum 4000)])
       \<and> step (TimeoutFires (nextTimer w) throws) (handleClose code reason w) =
           connect throws
             ((handleClose code reason w)
                \<lparr>timeouts := removeAll (nextTimer w) (timeouts (handleClose code reason w))\<rparr>)
       \<and> (isValidPublicKey (key (options w)) \<longrightarrow>
            actions (trace (step (TimeoutFires (nextTimer w) False) (handleClose code reason w))) =
              actions (trace (handleClose code reason w))
              @ [Emitted ''state:change'' (JObj [(''state'', JStr ''reconnecting'')]),
                 NewWebSocket (length (sockets w)) (connect_url w)]
            \<and> state (step (TimeoutFires (nextTimer w) False) (handleClose code reason w)) =
                reconnecting
            \<and> ws (step (TimeoutFires (nextTimer w) False) (handleClose code reason w)) =
                Some (length (sockets w)))"
proof -
  note r = handleClose_retry [OF assms(3) assms(1) assms(2), of reason]
  note s = scheduleReconnect_retry [OF assms(1) assms(2)]
  note x = times_pow2_exact [OF assms(5) assms(6)]
  have 1: "reconnectAttempts (handleClose code reason w) = reconnectAttempts w + 1"
    using r(1) by simp
  have 2: "reconnectAttempts (scheduleReconnect w) = reconnectAttempts w + 1"
    using s(1) by simp
  have 3: "int (reconnectAttempts w + 1) = int (reconnectAttempts w) + 1"
    by simp
  have a: "reconnectAttempts (handleClose code reason w) = reconnectAttempts w + 1
       \<and> actions (trace (handleClose code reason w)) =
           actions (trace w)
           @ (case getCloseReasonMessage code reason of
                None \<Rightarrow> []
              | Some m \<Rightarrow> [Emitted ''error'' (JObj [(''code'', JNum (int code)), (''message'', JStr m)])])
           @ (case heartbeatInterval w of None \<Rightarrow> [] | Some h \<Rightarrow> [ClearInterval h])
           @ [Emitted ''disconnected'' (JObj [(''code'', JNum (int code)), (''reason'', JStr reason)]),
              Emitted ''state:change'' (JObj [(''state'', JStr ''disconnected'')]),
              Emitted ''reconnecting''
                (JObj [(''attempt'', JNum (int (reconnectAttempts (handleClose code reason w)))),
                       (''delay'', JNum (reconnectDelay (options w) *
                                         2 ^ (reconnectAttempts (handleClose code reason w) - 1)))]),
              SetTimeout (nextTimer w)
                (JNum (reconnectDelay (options w) *
                       2 ^ (reconnectAttempts (handleClose code reason w) - 1)))]
       \<and> timeouts (handleClose code reason w) = timeouts w @ [nextTimer w]
       \<and> reconnectTimeout (handleClose code reason w) = Some (nextTimer w)
       \<and> reconnectAttempts (scheduleReconnect w) = reconnectAttempts w + 1
       \<and> actions (trace (scheduleReconnect w)) =
           actions (trace w)
           @ [Emitted ''reconnecting''
                (JObj [(''attempt'', JNum (int (reconnectAttempts (scheduleReconnect w)))),
                       (''delay'', JNum (reconnectDelay (options w) *
                                         2 ^ (reconnectAttempts (scheduleReconnect w) - 1)))]),
              SetTimeout (nextTimer w)
                (JNum (reconnectDelay (options w) *
                       2 ^ (reconnectAttempts (scheduleReconnect w) - 1)))]
       \<and> timeouts (scheduleReconnect w) = timeouts w @ [nextTimer w]
       \<and> (reconnectDelay (options w) = 1000 \<and> reconnectAttempts w = 0 \<longrightarrow>
            actions (trace (scheduleReconnect w)) =
              actions (trace w)
              @ [Emitted ''reconnecting'' (JObj [(''attempt'', JNum 1), (''delay'', JNum 1000)]),
                 SetTimeout (nextTimer w) (JNum 1000)])
       \<and> (reconnectDelay (options w) = 1000 \<and> reconnectAttempts w = 1 \<longrightarrow>
            actions (trace (scheduleReconnect w)) =
              actions (trace w)
              @ [Emitted ''reconnecting'' (JObj [(''attempt'', JNum 2), (''delay'', JNum 2000)]),
                 SetTimeout (nextTimer w) (JNum 2000)])
       \<and> (reconnectDelay (options w) = 1000 \<and> reconnectAttempts w = 2 \<longrightarrow>
            actions (trace (scheduleReconnect w)) =
              actions (trace w)
              @ [Emitted ''reconnecting'' (JObj [(''attempt'', JNum 3), (''delay'', JNum 4000)]),
                 SetTimeout (nextTimer w) (JNum 4000)])"
    unfolding 1 2 3 r(4) s(5) x
    using r(2) r(3) s(3) by simp
  have m: "nextTimer w \<in> set (timeouts (handleClose code reason w))"
    using r(3) by simp
  have b: "step (TimeoutFires (nextTimer w) throws) (handleClose code reason w) =
           connect throws
             ((handleClose code reason w)
                \<lparr>timeouts := removeAll (nextTimer w) (timeouts (handleClose code reason w))\<rparr>)"
    using m by simp
  have c: "isValidPublicKey (key (options w)) \<longrightarrow>
            actions (trace (step (TimeoutFires (nextTimer w) False) (handleClose code reason w))) =
              actions (trace (handleClose code reason w))
              @ [Emitted ''state:change'' (JObj [(''state'', JStr ''reconnecting'')]),
                 NewWebSocket (length (sockets w)) (connect_url w)]
            \<and> state (step (TimeoutFires (nextTimer w) False) (handleClose code reason w)) =
                reconnecting
            \<and> ws (step (TimeoutFires (nextTimer w) False) (handleClose code reason w)) =
                Some (length (sockets w))"
  proof
    assume k: "isValidPublicKey (key (options w))"
    define v where
      "v = (handleClose code reason w)
             \<lparr>timeouts := removeAll (nextTimer w) (timeouts (handleClose code reason w))\<rparr>"
    have f: "state v = disconnected" "options v = options w" "sockets v = sockets w"
      "reconnectAttempts v = Suc (reconnectAttempts w)"
      "trace v = trace (handleClose code reason w)" "name v = name (handleClose code reason w)"
      using r(1) by (simp_all add: v_def)
    have n: "name (handleClose code reason w) = name w"
      using handleClose_head [of code reason w] by auto
    have u: "connect_url v = connect_url w"
      using f n by (simp add: connect_url_def)
    have sv: "state v = disconnected \<or> state v = reconnecting"
      using f by simp
    have kv: "isValidPublicKey (key (options v))"
      using k f by simp
    note o = connect_opens [OF sv kv]
    have e: "step (TimeoutFires (nextTimer w) False) (handleClose code reason w) = connect False v"
      using m by (simp add: v_def)
    show "actions (trace (step (TimeoutFires (nextTimer w) False) (handleClose code reason w))) =
              actions (trace (handleClose code reason w))
              @ [Emitted ''state:change'' (JObj [(''state'', JStr ''reconnecting'')]),
                 NewWebSocket (length (sockets w)) (connect_url w)]
            \<and> state (step (TimeoutFires (nextTimer w) False) (handleClose code reason w)) =
                reconnecting
            \<and> ws (step (TimeoutFires (nextTimer w) False) (handleClose code reason w)) =
                Some (length (sockets w))"
      unfolding e using o(2) o(3) o(11) f u by simp
  qed
  from a b c show ?thesis
    by simp
qed

theorem reconnect_backoff_witness:
  "autoReconnect (options (KalzeChannel_new ''room'' example_options False))
   \<and> \<not> terminal_code 1006
   \<and> reconnectDelay (options (KalzeChannel_new ''room'' example_options False)) = 1000
   \<and> isValidPublicKey (key (options (KalzeChannel_new ''room'' example_options False)))
   \<and> reconnectAttempts (handleClose 1006 [] (KalzeChannel_new ''room'' example_options False)) = 1
   \<and> timeouts (handleClose 1006 [] (KalzeChannel_new ''room'' example_options False)) = [1]
   \<and> actions (trace (handleClose 1006 [] (KalzeChannel_new ''room'' example_options False))) =
       [Emitted ''state:change'' (JObj [(''state'', JStr ''connecting'')]),
        NewWebSocket 0 (connect_url (fresh ''room'' example_options)),
        Emitted ''disconnected'' (JObj [(''code'', JNum 1006), (''reason'', JStr [])]),
        Emitted ''state:change'' (JObj [(''state'', JStr ''disconnected'')]),
        Emitted ''reconnecting'' (JObj [(''attempt'', JNum 1), (''delay'', JNum 1000)]),
        SetTimeout 1 (JNum 1000)]
   \<and> state (step (TimeoutFires 1 False)
              (handleClose 1006 [] (KalzeChannel_new ''room'' example_options False))) = reconnecting
   \<and> ws (step (TimeoutFires 1 False)
           (handleClose 1006 [] (KalzeChannel_new ''room'' example_options False))) = Some 1"
proof -
  note f = constructed_fields [OF valid_example_key, of "''room''"]
  have a: "autoReconnect (options (KalzeChannel_new ''room'' example_options False))"
    using f required_example_options by simp
  have b: "int (reconnectAttempts (KalzeChannel_new ''room'' example_options False))
           < maxReconnectAttempts (options (KalzeChannel_new ''room'' example_options False))"
    using f required_example_options by simp
  have c: "\<not> terminal_code 1006"
    by (simp add: terminal_code_def)
  have d: "\<bar>reconnectDelay (options (KalzeChannel_new ''room'' example_options False))\<bar> \<le> 2 ^ 53"
    using f required_example_options by simp
  have e: "reconnectAttempts (KalzeChannel_new ''room'' example_options False) < 1024"
    using f by simp
  have h: "\<bar>reconnectDelay (options (KalzeChannel_new ''room'' example_options False))\<bar>
             * 2 ^ reconnectAttempts (KalzeChannel_new ''room'' example_options False) < 2 ^ 1024"
    using f required_example_options by simp
  have g: "getCloseReasonMessage 1006 [] = None"
    by (simp add: getCloseReasonMessage_def)
  have k: "isValidPublicKey (key (options (KalzeChannel_new ''room'' example_options False)))"
    using f required_example_options valid_example_key by simp
  note t = reconnect_backoff [OF a b c d e h, of "[]" False]
  have x: "isValidPublicKey (key (options (KalzeChannel_new ''room'' example_options False))) \<longrightarrow>
            actions (trace (step (TimeoutFires (nextTimer (KalzeChannel_new ''room'' example_options False)) False)
                              (handleClose 1006 [] (KalzeChannel_new ''room'' example_options False)))) =
              actions (trace (handleClose 1006 [] (KalzeChannel_new ''room'' example_options False)))
              @ [Emitted ''state:change'' (JObj [(''state'', JStr ''reconnecting'')]),
                 NewWebSocket (length (sockets (KalzeChannel_new ''room'' example_options False)))
                   (connect_url (KalzeChannel_new ''room'' example_options False))]
            \<and> state (step (TimeoutFires (nextTimer (KalzeChannel_new ''room'' example_options False)) False)
                       (handleClose 1006 [] (KalzeChannel_new ''room'' example_options False))) =
                reconnecting
            \<and> ws (step (TimeoutFires (nextTimer (KalzeChannel_new ''room'' example_options False)) False)
                    (handleClose 1006 [] (KalzeChannel_new ''room'' example_options False))) =
                Some (length (sockets (KalzeChannel_new ''room'' example_options False)))"
    using t by (elim conjE)
  have y: "state (step (TimeoutFires 1 False)
              (handleClose 1006 [] (KalzeChannel_new ''room'' example_options False))) = reconnecting"
    "ws (step (TimeoutFires 1 False)
           (handleClose 1006 [] (KalzeChannel_new ''room'' example_options False))) = Some 1"
    using x k unfolding f(8) f(5) by simp_all
  have z: "reconnectAttempts (handleClose 1006 [] (KalzeChannel_new ''room'' example_options False)) = 1"
    "timeouts (handleClose 1006 [] (KalzeChannel_new ''room'' example_options False)) = [1]"
    "actions (trace (handleClose 1006 [] (KalzeChannel_new ''room'' example_options False))) =
       [Emitted ''state:change'' (JObj [(''state'', JStr ''connecting'')]),
        NewWebSocket 0 (connect_url (fresh ''room'' example_options)),
        Emitted ''disconnected'' (JObj [(''code'', JNum 1006), (''reason'', JStr [])]),
        Emitted ''state:change'' (JObj [(''state'', JStr ''disconnected'')]),
        Emitted ''reconnecting'' (JObj [(''attempt'', JNum 1), (''delay'', JNum 1000)]),
        SetTimeout 1 (JNum 1000)]"
    using t [THEN conjunct1] t [THEN conjunct2, THEN conjunct1]
      t [THEN conjunct2, THEN conjunct2, THEN conjunct1] f g required_example_options
    by simp_all
  have o: "reconnectDelay (options (KalzeChannel_new ''room'' example_options False)) = 1000"
    using f required_example_options by simp
  from a c o k z y show ?thesis
    by (intro conjI)
qed

text \<open>
  C4. Reconnect scheduling does nothing when auto-reconnect is disabled; otherwise, with
  the attempt counter at (or above) the maximum, \<open>scheduleReconnect\<close> emits exactly one
  reconnect:failed event with the attempt count, leaves the counter alone and arranges no
  timer. For a connector reached from its construction, whether the scheduling ran from
  the close handler or from a failed socket construction in the timer, nothing is left
  that could call the connector back: whatever the host and the application do afterwards
  (\<open>connect\<close> is private), no socket is opened, no timer is set and no further event is
  emitted.
\<close>
theorem reconnect_exhausted:
  assumes "autoReconnect (options w)"
    and "maxReconnectAttempts (options w) \<le> int (reconnectAttempts w)"
  shows "actions (trace (scheduleReconnect w)) =
           actions (trace w)
           @ [Emitted ''reconnect:failed'' (JObj [(''attempts'', JNum (int (reconnectAttempts w)))])]
       \<and> reconnectAttempts (scheduleReconnect w) = reconnectAttempts w
       \<and> timeouts (scheduleReconnect w) = timeouts w
       \<and> reconnectTimeout (scheduleReconnect w) = reconnectTimeout w
       \<and> sockets (scheduleReconnect w) = sockets w
       \<and> (reachable w \<and> readyStateOf w s \<noteq> None \<and> readyStateOf w s \<noteq> Some CLOSED
            \<and> \<not> terminal_code code \<longrightarrow>
           (let w' = step (SocketClose s code reason) w in
              actions (trace w') =
                actions (trace w)
                @ (case getCloseReasonMessage code reason of
                     None \<Rightarrow> []
                   | Some m \<Rightarrow>
                       [Emitted ''error'' (JObj [(''code'', JNum (int code)), (''message'', JStr m)])])
                @ (case heartbeatInterval w of None \<Rightarrow> [] | Some h \<Rightarrow> [ClearInterval h])
                @ [Emitted ''disconnected''
                     (JObj [(''code'', JNum (int code)), (''reason'', JStr reason)]),
                   Emitted ''state:change'' (JObj [(''state'', JStr ''disconnected'')]),
                   Emitted ''reconnect:failed''
                     (JObj [(''attempts'', JNum (int (reconnectAttempts w)))])]
              \<and> reconnectAttempts w' = reconnectAttempts w
              \<and> (\<forall>es. sockets (run es w') = sockets w' \<and> timeouts (run es w') = []
                     \<and> reconnectAttempts (run es w') = reconnectAttempts w
                     \<and> filter own_activity (trace (run es w')) = filter own_activity (trace w'))))
       \<and> (reachable w \<and> t \<in> set (timeouts w) \<and> state w \<noteq> connecting \<and> state w \<noteq> connected
            \<and> isValidPublicKey (key (options w)) \<longrightarrow>
           (let w' = step (TimeoutFires t True) w in
              actions (trace w') =
                actions (trace w)
                @ [Emitted ''state:change''
                     (JObj [(''state'', JStr (if reconnectAttempts w > 0 then ''reconnecting''
                                             else ''connecting''))]),
                   NewWebSocketThrew (connect_url w),
                   Emitted ''error'' (JObj [(''message'', JStr ''Failed to connect'')]),
                   Emitted ''reconnect:failed''
                     (JObj [(''attempts'', JNum (int (reconnectAttempts w)))])]
              \<and> reconnectAttempts w' = reconnectAttempts w
              \<and> (\<forall>es. sockets (run es w') = sockets w' \<and> timeouts (run es w') = []
                     \<and> reconnectAttempts (run es w') = reconnectAttempts w
                     \<and> filter own_activity (trace (run es w')) = filter own_activity (trace w'))))"
proof -
  have i: "\<not> autoReconnect (options w) \<or> maxReconnectAttempts (options w) \<le> int (reconnectAttempts w)"
    using assms by simp
  note a = scheduleReconnect_idle [OF i]
  have a5: "actions (trace (scheduleReconnect w)) =
           actions (trace w)
           @ [Emitted ''reconnect:failed'' (JObj [(''attempts'', JNum (int (reconnectAttempts w)))])]"
    using a(5) assms(1) by simp
  have s: "sockets (scheduleReconnect w) = sockets w"
    by simp
  have b: "reachable w \<and> readyStateOf w s \<noteq> None \<and> readyStateOf w s \<noteq> Some CLOSED
            \<and> \<not> terminal_code code \<longrightarrow>
           (let w' = step (SocketClose s code reason) w in
              actions (trace w') =
                actions (trace w)
                @ (case getCloseReasonMessage code reason of
                     None \<Rightarrow> []
                   | Some m \<Rightarrow>
                       [Emitted ''error'' (JObj [(''code'', JNum (int code)), (''message'', JStr m)])])
                @ (case heartbeatInterval w of None \<Rightarrow> [] | Some h \<Rightarrow> [ClearInterval h])
                @ [Emitted ''disconnected''
                     (JObj [(''code'', JNum (int code)), (''reason'', JStr reason)]),
                   Emitted ''state:change'' (JObj [(''state'', JStr ''disconnected'')]),
                   Emitted ''reconnect:failed''
                     (JObj [(''attempts'', JNum (int (reconnectAttempts w)))])]
              \<and> reconnectAttempts w' = reconnectAttempts w
              \<and> (\<forall>es. sockets (run es w') = sockets w' \<and> timeouts (run es w') = []
                     \<and> reconnectAttempts (run es w') = reconnectAttempts w
                     \<and> filter own_activity (trace (run es w')) = filter own_activity (trace w')))"
    unfolding Let_def
  proof (intro impI, elim conjE)
    assume r: "reachable w" and e1: "readyStateOf w s \<noteq> None"
      and e2: "readyStateOf w s \<noteq> Some CLOSED" and n: "\<not> terminal_code code"
    note x = close_exhausted [OF r e1 e2 n assms, of reason]
    note q = close_exhausted_quiet [OF r e1 e2 n assms, of reason]
    from x(1) x(2) quiet_forever [OF q x(2)]
    show "actions (trace (step (SocketClose s code reason) w)) =
                actions (trace w)
                @ (case getCloseReasonMessage code reason of
                     None \<Rightarrow> []
                   | Some m \<Rightarrow>
                       [Emitted ''error'' (JObj [(''code'', JNum (int code)), (''message'', JStr m)])])
                @ (case heartbeatInterval w of None \<Rightarrow> [] | Some h \<Rightarrow> [ClearInterval h])
                @ [Emitted ''disconnected''
                     (JObj [(''code'', JNum (int code)), (''reason'', JStr reason)]),
                   Emitted ''state:change'' (JObj [(''state'', JStr ''disconnected'')]),
                   Emitted ''reconnect:failed''
                     (JObj [(''attempts'', JNum (int (reconnectAttempts w)))])]
              \<and> reconnectAttempts (step (SocketClose s code reason) w) = reconnectAttempts w
              \<and> (\<forall>es. sockets (run es (step (SocketClose s code reason) w)) =
                        sockets (step (SocketClose s code reason) w)
                     \<and> timeouts (run es (step (SocketClose s code reason) w)) = []
                     \<and> reconnectAttempts (run es (step (SocketClose s code reason) w)) =
                        reconnectAttempts w
                     \<and> filter own_activity (trace (run es (step (SocketClose s code reason) w))) =
                        filter own_activity (trace (step (SocketClose s code reason) w)))"
      by (intro conjI)
  qed
  have c: "reachable w \<and> t \<in> set (timeouts w) \<and> state w \<noteq> connecting \<and> state w \<noteq> connected
            \<and> isValidPublicKey (key (options w)) \<longrightarrow>
           (let w' = step (TimeoutFires t True) w in
              actions (trace w') =
                actions (trace w)
                @ [Emitted ''state:change''
                     (JObj [(''state'', JStr (if reconnectAttempts w > 0 then ''reconnecting''
                                             else ''connecting''))]),
                   NewWebSocketThrew (connect_url w),
                   Emitted ''error'' (JObj [(''message'', JStr ''Failed to connect'')]),
                   Emitted ''reconnect:failed''
                     (JObj [(''attempts'', JNum (int (reconnectAttempts w)))])]
              \<and> reconnectAttempts w' = reconnectAttempts w
              \<and> (\<forall>es. sockets (run es w') = sockets w' \<and> timeouts (run es w') = []
                     \<and> reconnectAttempts (run es w') = reconnectAttempts w
                     \<and> filter own_activity (trace (run es w')) = filter own_activity (trace w')))"
    unfolding Let_def
  proof (intro impI, elim conjE)
    assume r: "reachable w" and e: "t \<in> set (timeouts w)"
      and s1: "state w \<noteq> connecting" and s2: "state w \<noteq> connected"
      and v: "isValidPublicKey (key (options w))"
    note x = timer_exhausted [OF r e s1 s2 v assms]
    note q = timer_exhausted_quiet [OF r e s1 s2 v assms]
    from x(1) x(2) quiet_forever [OF q x(2)]
    show "actions (trace (step (TimeoutFires t True) w)) =
                actions (trace w)
                @ [Emitted ''state:change''
                     (JObj [(''state'', JStr (if reconnectAttempts w > 0 then ''reconnecting''
                                             else ''connecting''))]),
                   NewWebSocketThrew (connect_url w),
                   Emitted ''error'' (JObj [(''message'', JStr ''Failed to connect'')]),
                   Emitted ''reconnect:failed''
                     (JObj [(''attempts'', JNum (int (reconnectAttempts w)))])]
              \<and> reconnectAttempts (step (TimeoutFires t True) w) = reconnectAttempts w
              \<and> (\<forall>es. sockets (run es (step (TimeoutFires t True) w)) =
                        sockets (step (TimeoutFires t True) w)
                     \<and> timeouts (run es (step (TimeoutFires t True) w)) = []
                     \<and> reconnectAttempts (run es (step (TimeoutFires t True) w)) =
                        reconnectAttempts w
                     \<and> filter own_activity (trace (run es (step (TimeoutFires t True) w))) =
                        filter own_activity (trace (step (TimeoutFires t True) w)))"
      by (intro conjI)
  qed
  from a5 a(1) a(3) a(2) s b c show ?thesis
    by (intro conjI)
qed

theorem reconnect_exhausted_witness:
  "reachable exhausted_at_close
   \<and> autoReconnect (options exhausted_at_close)
   \<and> maxReconnectAttempts (options exhausted_at_close) \<le> int (reconnectAttempts exhausted_at_close)
   \<and> readyStateOf exhausted_at_close 0 = Some CONNECTING
   \<and> \<not> terminal_code 1006
   \<and> actions (trace (step (SocketClose 0 1006 []) exhausted_at_close)) =
       [Emitted ''state:change'' (JObj [(''state'', JStr ''connecting'')]),
        NewWebSocket 0 (connect_url (fresh ''room'' (limited_options True 0))),
        Emitted ''disconnected'' (JObj [(''code'', JNum 1006), (''reason'', JStr [])]),
        Emitted ''state:change'' (JObj [(''state'', JStr ''disconnected'')]),
        Emitted ''reconnect:failed'' (JObj [(''attempts'', JNum 0)])]
   \<and> timeouts (run [CallTrigger JNull, IntervalFires 1, CallDisconnect]
                 (step (SocketClose 0 1006 []) exhausted_at_close)) = []
   \<and> reachable exhausted_at_timer
   \<and> maxReconnectAttempts (options exhausted_at_timer) \<le> int (reconnectAttempts exhausted_at_timer)
   \<and> 1 \<in> set (timeouts exhausted_at_timer)
   \<and> state exhausted_at_timer = disconnected
   \<and> reconnectAttempts (step (TimeoutFires 1 True) exhausted_at_timer) = 1
   \<and> timeouts (run [CallTrigger JNull, CallDisconnect]
                 (step (TimeoutFires 1 True) exhausted_at_timer)) = []"
proof -
  note a = exhausted_at_close_fields
  note b = exhausted_at_timer_fields
  have a1: "maxReconnectAttempts (options exhausted_at_close) \<le> int (reconnectAttempts exhausted_at_close)"
    using a by simp
  have b1: "maxReconnectAttempts (options exhausted_at_timer) \<le> int (reconnectAttempts exhausted_at_timer)"
    using b by simp
  note ta = reconnect_exhausted [OF a(2) a1, of 0 1006 "[]"]
  note tb = reconnect_exhausted [OF b(2) b1, of _ _ _ 1]
  have ca: "actions (trace (step (SocketClose 0 1006 []) exhausted_at_close)) =
       [Emitted ''state:change'' (JObj [(''state'', JStr ''connecting'')]),
        NewWebSocket 0 (connect_url (fresh ''room'' (limited_options True 0))),
        Emitted ''disconnected'' (JObj [(''code'', JNum 1006), (''reason'', JStr [])]),
        Emitted ''state:change'' (JObj [(''state'', JStr ''disconnected'')]),
        Emitted ''reconnect:failed'' (JObj [(''attempts'', JNum 0)])]"
    and qa: "timeouts (run [CallTrigger JNull, IntervalFires 1, CallDisconnect]
                 (step (SocketClose 0 1006 []) exhausted_at_close)) = []"
    using ta a not_terminal_1006 no_message_1006 by (simp_all add: Let_def)
  have cb: "reconnectAttempts (step (TimeoutFires 1 True) exhausted_at_timer) = 1"
    and qb: "timeouts (run [CallTrigger JNull, CallDisconnect]
                 (step (TimeoutFires 1 True) exhausted_at_timer)) = []"
    using tb b by (simp_all add: Let_def)
  show ?thesis
    using a b a1 b1 ca qa cb qb not_terminal_1006 by simp
qed

text \<open>
  C5 as stated fails: \<open>trigger\<close> tests the socket's ready state, not the connector's
  state. A socket that has opened but whose server has not yet sent the established
  message carries the frame while the state is still connecting.
\<close>
theorem trigger_before_established_counterexample:
  "reachable opened \<and> state opened \<noteq> connected
   \<and> trace (trigger JNull opened) =
       trace opened @ [WsSend 0 (JObj [(''event'', JStr ''client:event''), (''data'', JNull)])]"
  using opened_fields by (simp add: trigger_def perform_def)

text \<open>
  C5, amended: \<open>trigger\<close> is a no-op, leaving the connector as it is, whenever there is
  no transport handle or the transport is not open; so it is directly after
  \<open>disconnect\<close> and after the close handler, which clear the handle. When the handle is
  set and the transport is open it sends exactly the envelope
  \<open>{event: "client:event", data: payload}\<close> and changes nothing else, whatever the state.
\<close>
theorem trigger_guard:
  "(ws w = None \<or> (\<exists>s. ws w = Some s \<and> readyStateOf w s \<noteq> Some OPEN) \<longrightarrow> trigger d w = w)
   \<and> (ws w = Some s \<and> readyStateOf w s = Some OPEN \<longrightarrow>
        trigger d w =
          w\<lparr>trace := trace w @ [WsSend s (JObj [(''event'', JStr ''client:event''), (''data'', d)])]\<rparr>)
   \<and> trigger d (disconnect w) = disconnect w
   \<and> trigger d (handleClose code reason w) = handleClose code reason w"
proof -
  have a: "ws (disconnect w) = None" "ws (handleClose code reason w) = None"
    by simp_all
  have b: "trigger d (disconnect w) = disconnect w"
    "trigger d (handleClose code reason w) = handleClose code reason w"
    using a by (simp_all add: trigger_def)
  have c: "(ws w = None \<or> (\<exists>s. ws w = Some s \<and> readyStateOf w s \<noteq> Some OPEN) \<longrightarrow> trigger d w = w)
   \<and> (ws w = Some s \<and> readyStateOf w s = Some OPEN \<longrightarrow>
        trigger d w =
          w\<lparr>trace := trace w @ [WsSend s (JObj [(''event'', JStr ''client:event''), (''data'', d)])]\<rparr>)"
    by (auto simp add: trigger_def perform_def)
  from c b show ?thesis
    by simp
qed

theorem trigger_guard_witness:
  "ws (fresh ''room'' example_options) = None
   \<and> trigger JNull (fresh ''room'' example_options) = fresh ''room'' example_options
   \<and> ws opened = Some 0 \<and> readyStateOf opened 0 = Some OPEN
   \<and> trigger JNull opened =
       opened\<lparr>trace := trace opened @
                 [WsSend 0 (JObj [(''event'', JStr ''client:event''), (''data'', JNull)])]\<rparr>
   \<and> state (disconnect opened) = disconnected
   \<and> trigger JNull (disconnect opened) = disconnect opened"
proof -
  have s: "state (disconnect opened) = disconnected"
    by simp
  show ?thesis
    using trigger_guard [of "fresh ''room'' example_options" JNull]
      trigger_guard [of opened JNull 0]
      opened_fields s
    by simp
qed

text \<open>
  C6. With a key that does not match the pattern, the TypeScript \<open>connect\<close> emits the
  error event with code 4403 and opens nothing (\<open>source_rejects_bad_key\<close>, last three
  conjuncts). The built module has no such check: constructed with the key \<open>bad-key\<close>
  it moves to connecting and opens a socket, and emits no error.
\<close>
theorem dist_opens_transport_for_bad_key:
  "\<not> isValidPublicKey (opt_key bad_key_options)
   \<and> state (KalzeChannel_new_dist ''room'' bad_key_options False) = connecting
   \<and> ws (KalzeChannel_new_dist ''room'' bad_key_options False) = Some 0
   \<and> sockets (KalzeChannel_new_dist ''room'' bad_key_options False) = [CONNECTING]
   \<and> actions (trace (KalzeChannel_new_dist ''room'' bad_key_options False)) =
       [Emitted ''state:change'' (JObj [(''state'', JStr ''connecting'')]),
        NewWebSocket 0 (connect_url (fresh ''room'' bad_key_options))]
   \<and> state (KalzeChannel_new ''room'' bad_key_options False) = disconnected
   \<and> sockets (KalzeChannel_new ''room'' bad_key_options False) = []
   \<and> trace (KalzeChannel_new ''room'' bad_key_options False) =
       [Emitted ''error''
          (JObj [(''code'', JNum 4403),
                 (''message'', JStr ''Invalid public API key format. Expected wpk_live_*'')])]"
proof -
  have s: "state (fresh ''room'' bad_key_options) = disconnected \<or>
           state (fresh ''room'' bad_key_options) = reconnecting"
    by simp
  note c = connect_dist_opens [OF s]
  show ?thesis
    unfolding source_rejects_bad_key [OF bad_key_invalid]
    using c bad_key_invalid by (simp add: KalzeChannel_new_dist_def)
qed

text \<open>
  C7. On a close, \<open>handleClose\<close> first classifies the code and emits an error event
  when there is a message, before the disconnected event: a non-empty reason of the
  transport is the message as it is; otherwise the fixed table gives it (4401, 4403, 4408,
  4000, and the generic rejected message for every other code from 4000 on); a code below
  4000 without a reason gives no error event. The first conjunct lists everything the
  handler does to the outside, in order.
\<close>

theorem close_classification:
  "actions (trace (handleClose code reason w)) =
     actions (trace w)
     @ (case getCloseReasonMessage code reason of
          None \<Rightarrow> []
        | Some m \<Rightarrow> [Emitted ''error'' (JObj [(''code'', JNum (int code)), (''message'', JStr m)])])
     @ (case heartbeatInterval w of None \<Rightarrow> [] | Some h \<Rightarrow> [ClearInterval h])
     @ [Emitted ''disconnected'' (JObj [(''code'', JNum (int code)), (''reason'', JStr reason)]),
        Emitted ''state:change'' (JObj [(''state'', JStr ''disconnected'')])]
     @ (if terminal_code code \<or> \<not> autoReconnect (options w) then []
        else if maxReconnectAttempts (options w) \<le> int (reconnectAttempts w)
        then [Emitted ''reconnect:failed'' (JObj [(''attempts'', JNum (int (reconnectAttempts w)))])]
        else [Emitted ''reconnecting''
                (JObj [(''attempt'', JNum (int (reconnectAttempts w) + 1)),
                       (''delay'', times_pow2 (reconnectDelay (options w)) (reconnectAttempts w))]),
              SetTimeout (nextTimer w) (times_pow2 (reconnectDelay (options w)) (reconnectAttempts w))])
   \<and> (reason \<noteq> [] \<longrightarrow> getCloseReasonMessage code reason = Some reason)
   \<and> getCloseReasonMessage 4401 [] = Some ''Missing API key (?key=...)''
   \<and> getCloseReasonMessage 4403 [] = Some ''Invalid API key''
   \<and> getCloseReasonMessage 4408 [] = Some ''Connection limit exceeded''
   \<and> getCloseReasonMessage 4000 [] = Some ''Invalid path. Expected /c/:subdomain/:channel''
   \<and> (4000 \<le> code \<and> code \<notin> {4401, 4403, 4408, 4000} \<longrightarrow>
        getCloseReasonMessage code [] = Some (''Connection rejected ('' @ string_of_nat code @ '')''))
   \<and> getCloseReasonMessage 4500 [] = Some ''Connection rejected (4500)''
   \<and> (code < 4000 \<longrightarrow> getCloseReasonMessage code [] = None)"
proof -
  note a = handleClose_actions [of code reason w]
  have s: "string_of_nat 4500 = ''4500''"
    by (simp add: string_of_nat.simps)
  have t: "(reason \<noteq> [] \<longrightarrow> getCloseReasonMessage code reason = Some reason)
     \<and> getCloseReasonMessage 4401 [] = Some ''Missing API key (?key=...)''
     \<and> getCloseReasonMessage 4403 [] = Some ''Invalid API key''
     \<and> getCloseReasonMessage 4408 [] = Some ''Connection limit exceeded''
     \<and> getCloseReasonMessage 4000 [] = Some ''Invalid path. Expected /c/:subdomain/:channel''
     \<and> (4000 \<le> code \<and> code \<notin> {4401, 4403, 4408, 4000} \<longrightarrow>
          getCloseReasonMessage code [] = Some (''Connection rejected ('' @ string_of_nat code @ '')''))
     \<and> getCloseReasonMessage 4500 [] = Some ''Connection rejected (4500)''
     \<and> (code < 4000 \<longrightarrow> getCloseReasonMessage code [] = None)"
    using s by (simp add: getCloseReasonMessage_def)
  from a t show ?thesis by (rule conjI)
qed

theorem close_classification_witness:
  "getCloseReasonMessage 1006 ''going down'' = Some ''going down''
   \<and> getCloseReasonMessage 4500 [] = Some (''Connection rejected ('' @ string_of_nat 4500 @ '')'')
   \<and> getCloseReasonMessage 1006 [] = None
   \<and> actions (trace (handleClose 1006 [] (fresh ''room'' example_options))) =
       [Emitted ''disconnected'' (JObj [(''code'', JNum 1006), (''reason'', JStr [])]),
        Emitted ''state:change'' (JObj [(''state'', JStr ''disconnected'')]),
        Emitted ''reconnecting'' (JObj [(''attempt'', JNum 1), (''delay'', JNum 1000)]),
        SetTimeout 1 (JNum 1000)]"
proof -
  have t: "\<not> terminal_code 1006"
    by (simp add: terminal_code_def)
  have n: "getCloseReasonMessage 1006 [] = None"
    using close_classification [of 1006 "[]" "fresh ''room'' example_options"] by simp
  show ?thesis
    using close_classification [of 1006 "''going down''" "fresh ''room'' example_options"]
      close_classification [of 4500 "[]" "fresh ''room'' example_options"]
      close_classification [of 1006 "[]" "fresh ''room'' example_options"]
      t n required_example_options
    by simp
qed

text \<open>
  C8. For an established message (a payload with a string \<open>socketId\<close>) the handler
  records the session identifier, moves to connected and resets the attempt counter before
  it starts the heartbeat, and then emits connected, with the payload as received, and
  state:change, in this order.
\<close>

theorem established_handling:
  assumes "socketId_of d = Some sid"
    and "w' = handleConnectionEstablished d w"
  shows "socketId w' = JStr sid \<and> state w' = connected \<and> reconnectAttempts w' = 0
       \<and> heartbeatInterval w' = Some (nextTimer w)
       \<and> w' = emit ''state:change'' (JObj [(''state'', JStr ''connected'')])
                (emit ''connected'' d
                   (startHeartbeat
                      (w\<lparr>socketId := JStr sid, state := connected, reconnectAttempts := 0\<rparr>)))
       \<and> actions (trace w') =
           actions (trace w)
           @ (case heartbeatInterval w of None \<Rightarrow> [] | Some h \<Rightarrow> [ClearInterval h])
           @ [SetInterval (nextTimer w) 25000,
              Emitted ''connected'' d,
              Emitted ''state:change'' (JObj [(''state'', JStr ''connected'')])]
       \<and> handleMessage (Some \<lparr>event = ''connection:established'', data = d\<rparr>) w = w'"
  using assms data_socketId_string [of d sid]
  by (simp add: handleConnectionEstablished_def handleMessage_def Let_def state_name_def)

theorem established_handling_witness:
  "socketId_of (JObj [(''socketId'', JStr ''s1'')]) = Some ''s1''
   \<and> state (handleConnectionEstablished (JObj [(''socketId'', JStr ''s1'')])
             (KalzeChannel_new ''room'' example_options False)) = connected
   \<and> reconnectAttempts (handleConnectionEstablished (JObj [(''socketId'', JStr ''s1'')])
             (KalzeChannel_new ''room'' example_options False)) = 0"
proof -
  have h: "socketId_of (JObj [(''socketId'', JStr ''s1'')]) = Some ''s1''"
    by (simp add: socketId_of_def)
  show ?thesis
    using h established_handling [OF h refl, of "KalzeChannel_new ''room'' example_options False"]
    by simp
qed



text \<open>
  C10. The wrapper that \<open>once\<close> registers unsubscribes itself and then calls the
  function it wraps; when that function runs the wrapper is no longer among the listeners
  of its event. The self-unsubscription does not disturb the dispatch in progress: the loop
  over a set calls every callback that was registered when it started exactly once, in the
  order of registration, wrappers and others alike; and a whole \<open>emit\<close> delivers the
  payload to every listener of the event and then the envelope to every wildcard listener.
  The well-formedness this needs holds in every reachable state.
\<close>
theorem once_dispatch:
  "invoke (OnceWrapper k ev f) p w =
     perform (Called f p) (off ev (Some (OnceWrapper k ev f)) w)
   \<and> OnceWrapper k ev f \<notin> set (listeners (off ev (Some (OnceWrapper k ev f)) w) ev)
   \<and> (distinct (entries (setObjects w a)) \<longrightarrow>
        trace (forEach a p 0 w) =
          trace w @ map (\<lambda>cb. Called (target cb) p) (entries (setObjects w a)))
   \<and> (wf_listeners w \<and> ev \<noteq> ''*'' \<longrightarrow>
        trace (emit ev d w) =
          trace w @ Emitted ev d
          # map (\<lambda>cb. Called (target cb) d) (listeners w ev)
          @ map (\<lambda>cb. Called (target cb) (JObj [(''event'', JStr ev), (''data'', d)]))
              (listeners w ''*''))
   \<and> (reachable w \<longrightarrow> wf_listeners w)"
  using wrapper_unsubscribed [of k ev f w] forEach_trace [of w a p 0] emit_trace [of w ev d]
    reachable_wf [of w]
  by simp

theorem once_dispatch_witness:
  "reachable subscribed
   \<and> listeners subscribed ''message'' = [User 1, OnceWrapper 0 ''message'' 2, User 3]
   \<and> trace (emit ''message'' (JNum 7) subscribed) =
       trace subscribed
       @ [Emitted ''message'' (JNum 7), Called 1 (JNum 7), Called 2 (JNum 7), Called 3 (JNum 7),
          Called 4 (JObj [(''event'', JStr ''message''), (''data'', JNum 7)])]
   \<and> listeners (emit ''message'' (JNum 7) subscribed) ''message'' = [User 1, User 3]"
proof -
  have "listeners (emit ''message'' (JNum 7) subscribed) ''message'' = [User 1, User 3]"
    unfolding subscribed_def by code_simp
  then show ?thesis
    using once_dispatch [of 0 "''message''" 2 "JNum 7" subscribed 0 "JNum 7"] subscribed_fields
    by simp
qed

end
